theory Spec2Isabelle
  imports Main "HOL-Library.Sublist"
begin

section \<open>JavaScript values used by the release tool\<close>

text \<open>
  A value thrown in the TypeScript source is either an \<open>Error\<close> object, of which the
  code reads the \<open>message\<close>, or any other value, of which it reads \<open>String(error)\<close>.
\<close>

datatype thrown = Error string | Thrown string

text \<open>\<open>error instanceof Error ? error.message : String(error)\<close>\<close>

fun errorMessage :: "thrown \<Rightarrow> string" where
  "errorMessage (Error m) = m"
| "errorMessage (Thrown v) = v"

abbreviation NL :: char where
  "NL \<equiv> CHR 0x0A"

text \<open>
  \<open>String.prototype.split(sep)\<close> for a string separator: the pieces between the
  non-overlapping occurrences of \<open>sep\<close>, found left to right; the empty string gives one
  empty piece. (The source never splits on the empty separator; there JavaScript
  returns the single characters.)
\<close>

fun split :: "string \<Rightarrow> string \<Rightarrow> string list" where
  "split sep [] = (if sep = [] then [] else [[]])"
| "split sep (c # cs) =
     (if sep = [] then [c] # split sep cs
      else if prefix sep (c # cs) then [] # split sep (drop (length sep) (c # cs))
      else (case split sep cs of [] \<Rightarrow> [[c]] | p # ps \<Rightarrow> (c # p) # ps))"

text \<open>\<open>Array.prototype.join(sep)\<close> on strings.\<close>

fun join :: "string \<Rightarrow> string list \<Rightarrow> string" where
  "join sep [] = []"
| "join sep [x] = x"
| "join sep (x # y # ys) = x @ sep @ join sep (y # ys)"

text \<open>\<open>String.prototype.includes(p)\<close>: \<open>p\<close> occurs in the string.\<close>

fun includes_str :: "string \<Rightarrow> string \<Rightarrow> bool" where
  "includes_str [] p = (p = [])"
| "includes_str (c # cs) p = (prefix p (c # cs) \<or> includes_str cs p)"

text \<open>\<open>.filter(Boolean)\<close> on an array of strings drops the empty ones.\<close>

definition filterBoolean :: "string list \<Rightarrow> string list" where
  "filterBoolean xs = filter (\<lambda>x. x \<noteq> []) xs"

text \<open>Truthiness of an optional string (\<open>undefined\<close> and \<open>""\<close> are falsy).\<close>

fun truthy :: "string option \<Rightarrow> bool" where
  "truthy None = False"
| "truthy (Some s) = (s \<noteq> [])"

section \<open>The git adapter, the logger and the trace of effects\<close>

datatype level = Info | Err | Success

text \<open>
  Every call of the simple-git adapter and every message given to the logger is an event
  of the trace, in the order the code issues them. \<open>logger.debug\<close> diagnostics are left
  out of the trace: they take no part in control flow or results.
\<close>

datatype event =
    Log level string "thrown option"
  | GitRaw "string list"
  | GitStatus
  | GitFetch string
  | GitTags
  | GitAdd "string list"
  | GitCommit string
  | GitAddAnnotatedTag string string
  | GetPackageConfig string
  | PmValidateAuth
  | PmGetLatestVersion string
  | PmPack string
  | IntegrityCheckWithDetails
  | VersionValidateVersion string
  | ChangelogValidate string
  | ConsoleLogJson

text \<open>The part of simple-git's \<open>StatusResult\<close> that the source reads.\<close>

record StatusResult =
  isClean :: bool
  file_paths :: "string list"
  tracking :: "string option"
  current :: "string option"
  behind :: nat

text \<open>
  The simple-git object: each method acts on the repository (of an arbitrary type
  \<open>'g\<close>) and either throws or returns.
\<close>

record 'g SimpleGit =
  git_raw :: "string list \<Rightarrow> 'g \<Rightarrow> (thrown + string) \<times> 'g"
  git_status :: "'g \<Rightarrow> (thrown + StatusResult) \<times> 'g"
  git_fetch :: "string \<Rightarrow> 'g \<Rightarrow> (thrown + unit) \<times> 'g"
  git_tags :: "'g \<Rightarrow> (thrown + string list) \<times> 'g"
  git_add :: "string list \<Rightarrow> 'g \<Rightarrow> (thrown + unit) \<times> 'g"
  git_commit :: "string \<Rightarrow> 'g \<Rightarrow> (thrown + unit) \<times> 'g"
  git_addAnnotatedTag :: "string \<Rightarrow> string \<Rightarrow> 'g \<Rightarrow> (thrown + unit) \<times> 'g"

text \<open>\<open>GitConfig\<close> (declared in types/config): the fields \<open>GitService\<close> reads.\<close>

record GitConfig =
  tagPrefix :: string
  requireCleanWorkingDirectory :: bool
  requireUpToDate :: bool
  commitMessage :: string
  tagMessage :: "string option"
  allowedBranches :: "string list option"
  remote :: string

text \<open>
  A \<open>GitService\<close> object. Beside its fields it carries the functions it imports,
  which are parameters of this development: \<open>path.relative\<close> and \<open>path.join\<close> of Node,
  and \<open>formatGitTag\<close> of utils/format-tag (applied to the package name, the version and
  the tag prefix).
\<close>

record 'g GitService =
  git :: "'g SimpleGit"
  rootDir :: string
  config :: GitConfig
  path_relative :: "string \<Rightarrow> string \<Rightarrow> string"
  path_join :: "string \<Rightarrow> string \<Rightarrow> string"
  formatGitTag :: "string \<Rightarrow> string \<Rightarrow> string \<Rightarrow> string"

type_synonym 'g st = "'g \<times> event list"

definition logger :: "level \<Rightarrow> string \<Rightarrow> thrown option \<Rightarrow> 'g st \<Rightarrow> 'g st" where
  "logger l m e s = (fst s, snd s @ [Log l m e])"

definition raw :: "'g GitService \<Rightarrow> string list \<Rightarrow> 'g st \<Rightarrow> (thrown + string) \<times> 'g st" where
  "raw svc args s =
     (case git_raw (git svc) args (fst s) of (r, g) \<Rightarrow> (r, (g, snd s @ [GitRaw args])))"

section \<open>Commit history reader\<close>

record GitCommit =
  hash :: string
  date :: string
  message :: string
  body :: "string option"
  files :: "string list"

record GetCommitsOptions =
  packageName :: "string option"
  packagePath :: "string option"
  filterByPath :: "bool option"

text \<open>
  One pass of the loop over the chunks of the log output (the same statements in
  \<open>getCommitsSinceTag\<close> and in \<open>getAllCommits\<close>): \<open>None\<close> is the \<open>continue\<close> of a chunk
  with fewer than three lines.
\<close>

definition parseChunk :: "string \<Rightarrow> GitCommit option" where
  "parseChunk chunk =
     (let parts = split (NL # ''FILES'' @ [NL]) chunk;
          commitData = (case parts of [] \<Rightarrow> [] | d # _ \<Rightarrow> d);
          filesList = (case parts of _ # f # _ \<Rightarrow> Some f | _ \<Rightarrow> None);
          lines = filterBoolean (split [NL] commitData);
          startIndex = (case lines of l # _ \<Rightarrow> if l = ''COMMIT'' then 1 else 0 | [] \<Rightarrow> (0::nat))
      in if length lines < startIndex + 3 then None
         else
           let bodyLines = drop (startIndex + 3) lines
           in Some \<lparr> hash = lines ! startIndex,
                     date = lines ! (startIndex + 1),
                     message = lines ! (startIndex + 2),
                     body = (if length bodyLines > 0 then Some (join [NL] bodyLines) else None),
                     files = (case filesList of None \<Rightarrow> []
                              | Some f \<Rightarrow> filterBoolean (split [NL] f)) \<rparr>)"

definition parseCommits :: "string \<Rightarrow> GitCommit list" where
  "parseCommits result =
     List.map_filter parseChunk (filterBoolean (split (NL # ''COMMIT'' @ [NL]) result))"

definition logFormat :: string where
  "logFormat = ''--format=COMMIT%n%H%n%aI%n%s%n%b%nFILES''"

definition getAllCommits :: "'g GitService \<Rightarrow> 'g st \<Rightarrow> GitCommit list \<times> 'g st" where
  "getAllCommits svc s =
     (case raw svc [''log'', logFormat, ''--name-only''] s of
        (Inl e, s1) \<Rightarrow> ([], logger Err ''Failed to get all commits:'' (Some e) s1)
      | (Inr result, s1) \<Rightarrow>
          if result = [] then ([], logger Info ''No commits found in repository'' None s1)
          else (parseCommits result, s1))"

text \<open>
  The filter block of \<open>getCommitsSinceTag\<close> (entered when an options object is given):
  two sets of hashes are collected, then the commits whose hash is in either are kept.
\<close>

definition pathMatches :: "'g GitService \<Rightarrow> string \<Rightarrow> GitCommit \<Rightarrow> bool" where
  "pathMatches svc pkgPath c =
     (let relativePath = path_relative svc (rootDir svc) pkgPath
      in list_ex (\<lambda>file. prefix relativePath file) (files c))"

definition nameMatches :: "string \<Rightarrow> GitCommit \<Rightarrow> bool" where
  "nameMatches name c =
     (let marker = ''('' @ name @ '')''
      in includes_str (message c) marker \<or>
         (case body c of None \<Rightarrow> False | Some b \<Rightarrow> includes_str b marker))"

definition applyFilters ::
  "'g GitService \<Rightarrow> GetCommitsOptions \<Rightarrow> GitCommit list \<Rightarrow> GitCommit list" where
  "applyFilters svc options commits =
     (let matchedByPath =
            (if truthy (packagePath options)
             then fold (\<lambda>c m. if pathMatches svc (the (packagePath options)) c
                               then insert (hash c) m else m) commits {}
             else {});
          matchedByName =
            (if truthy (packageName options)
             then fold (\<lambda>c m. if nameMatches (the (packageName options)) c
                               then insert (hash c) m else m) commits {}
             else {})
      in filter (\<lambda>c. hash c \<in> matchedByPath \<or> hash c \<in> matchedByName) commits)"

text \<open>
  The two predicates of the filter for one commit: (a) some changed file starts with the
  package's relative path, when a package path is given; (b) the subject or the body
  contains the marker \<open>(<packageName>)\<close>, when a package name is given.
\<close>

definition commitMatches :: "'g GitService \<Rightarrow> GetCommitsOptions \<Rightarrow> GitCommit \<Rightarrow> bool" where
  "commitMatches svc opts c =
     ((truthy (packagePath opts) \<and> pathMatches svc (the (packagePath opts)) c) \<or>
      (truthy (packageName opts) \<and> nameMatches (the (packageName opts)) c))"

definition getCommitsSinceTag ::
  "'g GitService \<Rightarrow> string \<Rightarrow> GetCommitsOptions option \<Rightarrow> 'g st \<Rightarrow> GitCommit list \<times> 'g st" where
  "getCommitsSinceTag svc tag options s =
     (if tag = [] then
        getAllCommits svc
          (logger Info ''No previous tag found. Getting all commits instead.'' None s)
      else
        let failed = (\<lambda>e s'. ([], logger Err (''Failed to get commits since tag '' @ tag @ '':'')
                                     (Some e) s'))
        in case raw svc [''log'', ''-1'', ''--oneline''] s of
             (Inl e, s1) \<Rightarrow> failed e s1
           | (Inr verifyResult, s1) \<Rightarrow>
               (case raw svc [''log'', logFormat, ''--name-only'', tag @ ''..HEAD''] s1 of
                  (Inl e, s2) \<Rightarrow> failed e s2
                | (Inr result, s2) \<Rightarrow>
                    if result = [] then ([], s2)
                    else
                      let commits = parseCommits result
                      in (case options of
                            Some opts \<Rightarrow> (applyFilters svc opts commits, s2)
                          | None \<Rightarrow> (commits, s2))))"

section \<open>Status validation\<close>

record ValidateStatusOptions =
  skipUpstreamTracking :: "bool option"
  force :: "bool option"
  allowBranch :: "bool option"

text \<open>Truthiness of an optional flag (\<open>undefined\<close> and \<open>false\<close> are falsy).\<close>

fun flag :: "bool option \<Rightarrow> bool" where
  "flag None = False"
| "flag (Some b) = b"

text \<open>Decimal rendering of a number in a template literal.\<close>

fun decimal :: "nat \<Rightarrow> string" where
  "decimal n = (if n < 10 then [''0123456789'' ! n]
                else decimal (n div 10) @ [''0123456789'' ! (n mod 10)])"

definition status :: "'g GitService \<Rightarrow> 'g st \<Rightarrow> (thrown + StatusResult) \<times> 'g st" where
  "status svc s =
     (case git_status (git svc) (fst s) of (r, g) \<Rightarrow> (r, (g, snd s @ [GitStatus])))"

definition fetch :: "'g GitService \<Rightarrow> string \<Rightarrow> 'g st \<Rightarrow> (thrown + unit) \<times> 'g st" where
  "fetch svc rem s =
     (case git_fetch (git svc) rem (fst s) of (r, g) \<Rightarrow> (r, (g, snd s @ [GitFetch rem])))"

definition notCleanMessage :: "string list \<Rightarrow> string" where
  "notCleanMessage paths =
     ''Working directory is not clean. The following files have changes:'' @ [NL] @ ''- '' @
     join (NL # ''- '') paths @ [NL, NL] @
     ''To proceed anyway, you can:'' @ [NL] @
     ''1. Commit or stash your changes'' @ [NL] @
     ''2. Run with --no-git-check to skip this check''"

definition behindMessage :: "string \<Rightarrow> string \<Rightarrow> nat \<Rightarrow> string" where
  "behindMessage currentBranch track n =
     ''Branch '' @ currentBranch @ '' is behind '' @ track @ '' by '' @ decimal n @
     '' commits.'' @ [NL] @
     ''Please run '' @ [CHR 0x27] @ ''git pull'' @ [CHR 0x27] @
     '' to update your local branch or use --force to override.''"

definition branchNotAllowedMessage :: "string \<Rightarrow> string list \<Rightarrow> string" where
  "branchNotAllowedMessage currentBranch allowed =
     ''Current branch '' @ currentBranch @ '' is not in allowed branches: '' @
     join '', '' allowed @ ''.'' @ [NL, NL] @
     ''To proceed anyway, you can:'' @ [NL] @
     ''1. Switch to an allowed branch'' @ [NL] @
     ''2. Run with --allow-branch to bypass branch restrictions''"

text \<open>\<open>options?.skipUpstreamTracking\<close>: \<open>undefined\<close> also when no options object is given.\<close>

definition requestedSkip :: "ValidateStatusOptions option \<Rightarrow> bool option" where
  "requestedSkip options = (case options of None \<Rightarrow> None | Some opts \<Rightarrow> skipUpstreamTracking opts)"

text \<open>
  \<open>options?.skipUpstreamTracking ?? !this.config.requireUpToDate\<close>: the configuration is
  consulted only when the option is \<open>undefined\<close>.
\<close>

definition skipRemoteChecks :: "GitConfig \<Rightarrow> ValidateStatusOptions option \<Rightarrow> bool" where
  "skipRemoteChecks cfg options =
     (case requestedSkip options of Some b \<Rightarrow> b | None \<Rightarrow> \<not> requireUpToDate cfg)"

definition optFlag :: "ValidateStatusOptions option \<Rightarrow> (ValidateStatusOptions \<Rightarrow> bool option) \<Rightarrow> bool" where
  "optFlag options field = (case options of None \<Rightarrow> False | Some opts \<Rightarrow> flag (field opts))"

definition validateStatus ::
  "'g GitService \<Rightarrow> ValidateStatusOptions option \<Rightarrow> 'g st \<Rightarrow> (thrown + unit) \<times> 'g st" where
  "validateStatus svc options s =
     (let cfg = config svc in
      case status svc s of
        (Inl e, s1) \<Rightarrow> (Inl e, s1)
      | (Inr st, s1) \<Rightarrow>
          if requireCleanWorkingDirectory cfg \<and> \<not> isClean st
          then (Inl (Error (notCleanMessage (file_paths st))), s1)
          else if \<not> truthy (tracking st) \<and> skipRemoteChecks cfg options
          then (Inr (), s1)
          else
            let currentBranch = (case current st of None \<Rightarrow> [] | Some b \<Rightarrow> b);
                upToDate =
                  (if requireUpToDate cfg then
                     (case fetch svc (remote cfg) s1 of
                        (Inl e, s2) \<Rightarrow> (Inl e, s2)
                      | (Inr _, s2) \<Rightarrow>
                          if currentBranch = []
                          then (Inl (Error ''Not currently on any branch''), s2)
                          else if truthy (tracking st) \<and> behind st > 0 \<and> \<not> optFlag options force
                          then (Inl (Error (behindMessage currentBranch (the (tracking st))
                                              (behind st))), s2)
                          else (Inr (), s2))
                   else (Inr (), s1))
            in case upToDate of
                 (Inl e, s2) \<Rightarrow> (Inl e, s2)
               | (Inr _, s2) \<Rightarrow>
                   (case allowedBranches cfg of
                      None \<Rightarrow> (Inr (), s2)
                    | Some allowed \<Rightarrow>
                        if length allowed > 0 \<and> \<not> optFlag options force \<and>
                           \<not> optFlag options allowBranch \<and> currentBranch \<notin> set allowed
                        then (Inl (Error (branchNotAllowedMessage currentBranch allowed)), s2)
                        else (Inr (), s2)))"

text \<open>
  What the allowed-branches check at the end of \<open>validateStatus\<close> answers for a status
  result: the error when a non-empty list of allowed branches is configured, neither
  \<open>force\<close> nor \<open>allowBranch\<close> is set and the current branch is not in the list.
\<close>

definition allowedBranchesCheck ::
  "GitConfig \<Rightarrow> ValidateStatusOptions option \<Rightarrow> StatusResult \<Rightarrow> thrown + unit" where
  "allowedBranchesCheck cfg options st =
     (let currentBranch = (case current st of None \<Rightarrow> [] | Some b \<Rightarrow> b)
      in case allowedBranches cfg of
           None \<Rightarrow> Inr ()
         | Some allowed \<Rightarrow>
             if allowed \<noteq> [] \<and> \<not> optFlag options force \<and> \<not> optFlag options allowBranch \<and>
                currentBranch \<notin> set allowed
             then Inl (Error (branchNotAllowedMessage currentBranch allowed))
             else Inr ())"

section \<open>Tags and the release commit\<close>

text \<open>\<open>PackageContext\<close> (declared in types/config): the fields the code reads.\<close>

record PackageContext =
  name :: string
  path :: string
  currentVersion :: string
  newVersion :: "string option"

definition getTagName :: "'g GitService \<Rightarrow> string \<Rightarrow> string \<Rightarrow> string" where
  "getTagName svc pkgName version = formatGitTag svc pkgName version (tagPrefix (config svc))"

definition checkTagExists :: "'g GitService \<Rightarrow> string \<Rightarrow> 'g st \<Rightarrow> bool \<times> 'g st" where
  "checkTagExists svc tagName s =
     (case raw svc [''rev-parse'', ''refs/tags/'' @ tagName] s of
        (Inl _, s1) \<Rightarrow> (False, s1)
      | (Inr _, s1) \<Rightarrow> (True, s1))"

text \<open>
  \<open>deleteTag(tagName, remote?)\<close>; the optional flag is read for its truthiness only,
  so it is a \<open>bool\<close> here. The inner \<open>try\<close> swallows what the push throws; the outer
  \<open>catch\<close> is reached from the local deletion only.
\<close>

definition deleteTag :: "'g GitService \<Rightarrow> string \<Rightarrow> bool \<Rightarrow> 'g st \<Rightarrow> (thrown + unit) \<times> 'g st" where
  "deleteTag svc tagName remoteToo s =
     (case checkTagExists svc tagName s of
        (localTagExists, s1) \<Rightarrow>
          (case (if localTagExists then raw svc [''tag'', ''-d'', tagName] s1 else (Inr [], s1)) of
             (Inl e, s2) \<Rightarrow>
               if localTagExists
               then (Inl (Error (''Failed to delete tag '' @ tagName @ '': '' @ errorMessage e)), s2)
               else (Inr (), s2)
           | (Inr _, s2) \<Rightarrow>
               if remoteToo \<and> remote (config svc) \<noteq> []
               then (case raw svc [''push'', remote (config svc), '':refs/tags/'' @ tagName] s2 of
                       (_, s3) \<Rightarrow> (Inr (), s3))
               else (Inr (), s2)))"

definition alreadyExistsMessage :: "string \<Rightarrow> string \<Rightarrow> string" where
  "alreadyExistsMessage tagName rem =
     ''Tag '' @ tagName @
     '' already exists. Use --force to overwrite or manually delete the tag with:'' @ [NL, NL] @
     ''  git tag -d '' @ tagName @ [NL] @
     ''  git push '' @ rem @ '' :refs/tags/'' @ tagName"

definition addAnnotatedTag ::
  "'g GitService \<Rightarrow> string \<Rightarrow> string \<Rightarrow> 'g st \<Rightarrow> (thrown + unit) \<times> 'g st" where
  "addAnnotatedTag svc tagName msg s =
     (case git_addAnnotatedTag (git svc) tagName msg (fst s) of
        (r, g) \<Rightarrow> (r, (g, snd s @ [GitAddAnnotatedTag tagName msg])))"

definition createTag :: "'g GitService \<Rightarrow> PackageContext \<Rightarrow> bool \<Rightarrow> 'g st \<Rightarrow> (thrown + string) \<times> 'g st" where
  "createTag svc context forced s =
     (if \<not> truthy (newVersion context)
      then (Inl (Error ''Version is required to create a tag''), s)
      else
        let tagName = getTagName svc (name context) (the (newVersion context));
            tagMsg = (case tagMessage (config svc) of Some m \<Rightarrow> m | None \<Rightarrow> ''Release '' @ tagName);
            exists_msg = alreadyExistsMessage tagName (remote (config svc));
            tried =
              (case checkTagExists svc tagName s of
                 (tagExists, s1) \<Rightarrow>
                   (case (if tagExists
                          then (if forced then deleteTag svc tagName True s1
                                else (Inl (Error exists_msg), s1))
                          else (Inr (), s1)) of
                      (Inl e, s2) \<Rightarrow> (Inl e, s2)
                    | (Inr _, s2) \<Rightarrow>
                        (case addAnnotatedTag svc tagName tagMsg s2 of
                           (Inl e, s3) \<Rightarrow> (Inl e, s3)
                         | (Inr _, s3) \<Rightarrow> (Inr tagName, s3))))
        in case tried of
             (Inl e, s') \<Rightarrow>
               if includes_str (errorMessage e) ''already exists''
               then (Inl (Error exists_msg), s')
               else (Inl e, s')
           | (Inr t, s') \<Rightarrow> (Inr t, s'))"

text \<open>
  \<open>String.prototype.replace\<close> with a string pattern: only the first occurrence is
  replaced, and in the replacement text \<open>$$\<close>, \<open>$&\<close>, \<open>$`\<close> and \<open>$'\<close> stand for a dollar
  sign, the matched text, the text before the match and the text after it (a string
  pattern has no capture groups, so \<open>$1\<close> and the like are literal).
\<close>

fun find_first :: "string \<Rightarrow> string \<Rightarrow> (string \<times> string) option" where
  "find_first pat [] = (if pat = [] then Some ([], []) else None)"
| "find_first pat (c # cs) =
     (if prefix pat (c # cs) then Some ([], drop (length pat) (c # cs))
      else (case find_first pat cs of None \<Rightarrow> None | Some (b, a) \<Rightarrow> Some (c # b, a)))"

fun getSubstitution :: "string \<Rightarrow> string \<Rightarrow> string \<Rightarrow> string \<Rightarrow> string" where
  "getSubstitution m b a (c # d # r) =
     (if c = CHR ''$'' \<and> d = CHR ''$'' then CHR ''$'' # getSubstitution m b a r
      else if c = CHR ''$'' \<and> d = CHR ''&'' then m @ getSubstitution m b a r
      else if c = CHR ''$'' \<and> d = CHR 0x60 then b @ getSubstitution m b a r
      else if c = CHR ''$'' \<and> d = CHR 0x27 then a @ getSubstitution m b a r
      else c # getSubstitution m b a (d # r))"
| "getSubstitution m b a r = r"

definition replace :: "string \<Rightarrow> string \<Rightarrow> string \<Rightarrow> string" where
  "replace str pat rep =
     (case find_first pat str of
        None \<Rightarrow> str
      | Some (b, a) \<Rightarrow> b @ getSubstitution pat b a rep @ a)"

text \<open>
  Replacing the first occurrence of a placeholder by a text taken literally: what the
  release commit's template substitution is said to do.
\<close>

definition replaceFirst :: "string \<Rightarrow> string \<Rightarrow> string \<Rightarrow> string" where
  "replaceFirst str pat rep =
     (case find_first pat str of None \<Rightarrow> str | Some (b, a) \<Rightarrow> b @ rep @ a)"

definition add :: "'g GitService \<Rightarrow> string list \<Rightarrow> 'g st \<Rightarrow> (thrown + unit) \<times> 'g st" where
  "add svc fs s =
     (case git_add (git svc) fs (fst s) of (r, g) \<Rightarrow> (r, (g, snd s @ [GitAdd fs])))"

definition commit :: "'g GitService \<Rightarrow> string \<Rightarrow> 'g st \<Rightarrow> (thrown + unit) \<times> 'g st" where
  "commit svc msg s =
     (case git_commit (git svc) msg (fst s) of (r, g) \<Rightarrow> (r, (g, snd s @ [GitCommit msg])))"

definition commitChanges ::
  "'g GitService \<Rightarrow> PackageContext \<Rightarrow> string \<Rightarrow> 'g st \<Rightarrow> (thrown + unit) \<times> 'g st" where
  "commitChanges svc context changelogPath s =
     (if \<not> truthy (newVersion context)
      then (Inl (Error ''New version is required to create a commit message''), s)
      else
        let relativePackagePath = path_relative svc (rootDir svc) (path context);
            relativeChangelogPath = path_relative svc (rootDir svc) changelogPath;
            filesToAdd = filterBoolean [path_join svc relativePackagePath ''package.json'',
                                        relativeChangelogPath];
            failed = (\<lambda>e. Inl (Error (''Failed to commit changes: '' @ errorMessage e)))
        in case add svc filesToAdd s of
             (Inl e, s1) \<Rightarrow> (failed e, s1)
           | (Inr _, s1) \<Rightarrow>
               let msg = replace (replace (commitMessage (config svc)) ''${packageName}''
                                    (name context))
                           ''${version}'' (the (newVersion context))
               in (case commit svc msg s1 of
                     (Inl e, s2) \<Rightarrow> (failed e, s2)
                   | (Inr _, s2) \<Rightarrow> (Inr (), s2)))"

text \<open>
  The \<open>git.commitMessage\<close> field of the default configuration that
  \<open>generateMonorepoConfig\<close> writes for a package.json named \<open>n\<close>: the name is put into
  the text when the configuration is generated, the version placeholder is kept.
\<close>

definition generatedCommitMessage :: "string \<Rightarrow> string" where
  "generatedCommitMessage n = ''chore(release): release '' @ n @ ''@${version}''"

section \<open>Version comparison and the last tag\<close>

text \<open>
  The JavaScript numbers that arise here: the doubles with an integer value, the two
  infinities and NaN.
\<close>

datatype number = Num int | PosInf | NegInf | NaN

function bit_length :: "int \<Rightarrow> nat" where
  "bit_length n = (if n \<le> 0 then 0 else Suc (bit_length (n div 2)))"
  by pat_completeness auto
termination
  by (relation "measure nat") auto

declare bit_length.simps [simp del]

text \<open>
  The double nearest to a non-negative integer (IEEE 754 binary64, round to nearest, ties to
  even): exact below \<open>2^53\<close>, 53 significant bits above, infinite from \<open>2^1024\<close> on.
\<close>

definition toDouble :: "int \<Rightarrow> number" where
  "toDouble n =
     (if n < 2 ^ 53 then Num n
      else
        let e = bit_length n - 53;
            q = n div 2 ^ e;
            r = n mod 2 ^ e;
            h = 2 ^ (e - 1);
            m = (if r > h \<or> (r = h \<and> odd q) then q + 1 else q) * 2 ^ e
        in if m \<ge> 2 ^ 1024 then PosInf else Num m)"

definition isDigit :: "char \<Rightarrow> bool" where
  "isDigit c = (c \<in> set ''0123456789'')"

definition digitValue :: "char \<Rightarrow> int" where
  "digitValue c = of_char c - 48"

definition decimalValue :: "string \<Rightarrow> int" where
  "decimalValue s = foldl (\<lambda>acc c. 10 * acc + digitValue c) 0 s"

text \<open>
  \<open>Number(s)\<close> for a segment of a version string: the empty string is 0, a string of
  decimal digits is the double nearest to its value. Every other string is read as NaN
  here; that is what JavaScript gives for segments such as \<open>0-beta\<close> or \<open>x\<close>, while the
  further numeric syntaxes of JavaScript (a sign, an exponent, a radix prefix,
  surrounding white space, \<open>Infinity\<close>) are not modelled and no statement below is about
  them.
\<close>

definition Number :: "string \<Rightarrow> number" where
  "Number s =
     (if s = [] then Num 0
      else if list_all isDigit s then toDouble (decimalValue s)
      else NaN)"

text \<open>Reading an array at an index: \<open>undefined\<close> out of range.\<close>

definition nth_opt :: "'a list \<Rightarrow> nat \<Rightarrow> 'a option" where
  "nth_opt xs i = (if i < length xs then Some (xs ! i) else None)"

text \<open>\<open>x || 0\<close> on a number or \<open>undefined\<close>: \<open>undefined\<close>, NaN and 0 are falsy.\<close>

fun orZero :: "number option \<Rightarrow> number" where
  "orZero None = Num 0"
| "orZero (Some NaN) = Num 0"
| "orZero (Some x) = x"

text \<open>\<open>a !== b\<close> on numbers: NaN differs from everything, itself included.\<close>

definition strictNe :: "number \<Rightarrow> number \<Rightarrow> bool" where
  "strictNe a b = (a = NaN \<or> b = NaN \<or> a \<noteq> b)"

definition roundInt :: "int \<Rightarrow> number" where
  "roundInt d =
     (if d \<ge> 0 then toDouble d
      else (case toDouble (- d) of Num m \<Rightarrow> Num (- m) | _ \<Rightarrow> NegInf))"

text \<open>\<open>a - b\<close> on numbers: the exact difference, rounded to a double.\<close>

fun minus_number :: "number \<Rightarrow> number \<Rightarrow> number" where
  "minus_number (Num a) (Num b) = roundInt (a - b)"
| "minus_number NaN _ = NaN"
| "minus_number _ NaN = NaN"
| "minus_number PosInf PosInf = NaN"
| "minus_number NegInf NegInf = NaN"
| "minus_number PosInf _ = PosInf"
| "minus_number NegInf _ = NegInf"
| "minus_number (Num a) PosInf = NegInf"
| "minus_number (Num a) NegInf = PosInf"

function compareLoop :: "number list \<Rightarrow> number list \<Rightarrow> nat \<Rightarrow> number" where
  "compareLoop partsA partsB i =
     (if i < max (length partsA) (length partsB) then
        let numA = orZero (nth_opt partsA i);
            numB = orZero (nth_opt partsB i)
        in if strictNe numA numB then minus_number numA numB
           else compareLoop partsA partsB (i + 1)
      else Num 0)"
  by pat_completeness auto
termination
  by (relation "measure (\<lambda>(a, b, i). max (length a) (length b) - i)") auto

declare compareLoop.simps [simp del]

definition compareVersions :: "string \<Rightarrow> string \<Rightarrow> number" where
  "compareVersions a b =
     compareLoop (map Number (split ''.'' a)) (map Number (split ''.'' b)) 0"

text \<open>
  \<open>Array.prototype.sort(compare)\<close>: the sort is stable, and \<open>x\<close> is placed after \<open>y\<close>
  only when \<open>compare(x, y)\<close> is positive (a NaN counts as 0). For a comparator that is a
  consistent ordering the result is the one sorted arrangement in which equal elements
  keep their order, computed here by insertion; for an inconsistent comparator
  JavaScript leaves the order to the implementation.
\<close>

fun positive :: "number \<Rightarrow> bool" where
  "positive (Num d) = (d > 0)"
| "positive PosInf = True"
| "positive _ = False"

fun insertBy :: "('a \<Rightarrow> 'a \<Rightarrow> number) \<Rightarrow> 'a \<Rightarrow> 'a list \<Rightarrow> 'a list" where
  "insertBy cmp x [] = [x]"
| "insertBy cmp x (y # ys) = (if positive (cmp x y) then y # insertBy cmp x ys else x # y # ys)"

definition sortBy :: "('a \<Rightarrow> 'a \<Rightarrow> number) \<Rightarrow> 'a list \<Rightarrow> 'a list" where
  "sortBy cmp xs = foldr (insertBy cmp) xs []"

text \<open>\<open>tag.split("@").pop() ?? ""\<close>: the text after the last \<open>@\<close>.\<close>

definition versionOf :: "string \<Rightarrow> string" where
  "versionOf tag = (case split ''@'' tag of [] \<Rightarrow> [] | ps \<Rightarrow> last ps)"

definition tags :: "'g GitService \<Rightarrow> 'g st \<Rightarrow> (thrown + string list) \<times> 'g st" where
  "tags svc s =
     (case git_tags (git svc) (fst s) of (r, g) \<Rightarrow> (r, (g, snd s @ [GitTags])))"

definition packageTags :: "string \<Rightarrow> string list \<Rightarrow> string list" where
  "packageTags pkgName all =
     sortBy (\<lambda>a b. compareVersions (versionOf b) (versionOf a))
       (filter (prefix (pkgName @ ''@'')) all)"

definition getLastTag :: "'g GitService \<Rightarrow> string \<Rightarrow> 'g st \<Rightarrow> (thrown + string) \<times> 'g st" where
  "getLastTag svc pkgName s =
     (case tags svc s of
        (Inl e, s1) \<Rightarrow> (Inl e, s1)
      | (Inr all, s1) \<Rightarrow>
          (case packageTags pkgName all of
             [] \<Rightarrow> (Inr [], s1)
           | t # _ \<Rightarrow> (Inr t, s1)))"

text \<open>
  The comparison the specification asks for: component by component on the integer
  values of the segments, a missing segment counting as 0; the result is the sign.
\<close>

fun componentwise :: "int list \<Rightarrow> int list \<Rightarrow> int" where
  "componentwise [] [] = 0"
| "componentwise (a # as) [] =
     (if a < 0 then - 1 else if 0 < a then 1 else componentwise as [])"
| "componentwise [] (b # bs) =
     (if 0 < b then - 1 else if b < 0 then 1 else componentwise [] bs)"
| "componentwise (a # as) (b # bs) =
     (if a < b then - 1 else if b < a then 1 else componentwise as bs)"

definition segments :: "string \<Rightarrow> int list" where
  "segments v = map decimalValue (split ''.'' v)"

text \<open>
  A version string made of dot-separated numeric segments, each below \<open>2^53\<close> (the
  integers a double holds exactly).
\<close>

definition safeVersion :: "string \<Rightarrow> bool" where
  "safeVersion v =
     list_all (\<lambda>seg. seg \<noteq> [] \<and> list_all isDigit seg \<and> decimalValue seg < 2 ^ 53)
       (split ''.'' v)"

definition numericVersion :: "string \<Rightarrow> bool" where
  "numericVersion v = list_all (\<lambda>seg. seg \<noteq> [] \<and> list_all isDigit seg) (split ''.'' v)"

text \<open>Auxiliary notions for the proofs: segment values a double holds exactly, and reading a
  list of segments with 0 for a missing one.\<close>

definition inRange :: "int list \<Rightarrow> bool" where
  "inRange xs = (\<forall>x \<in> set xs. 0 \<le> x \<and> x < 2 ^ 53)"

definition at0 :: "int list \<Rightarrow> nat \<Rightarrow> int" where
  "at0 xs i = (if i < length xs then xs ! i else 0)"

section \<open>The validate command\<close>

text \<open>
  The options of the validate command as commander hands them over: a flag that was not
  given is \<open>undefined\<close>.
\<close>

record ValidateCommandOptions =
  vc_all :: "bool option"
  vc_authOnly :: "bool option"
  vc_gitOnly :: "bool option"
  vc_depsOnly :: "bool option"
  vc_versionOnly :: "bool option"
  vc_changelogOnly :: "bool option"
  vc_publishOnly :: "bool option"
  vc_skipAuth :: "bool option"
  vc_skipGit :: "bool option"
  vc_skipDeps :: "bool option"
  vc_skipVersion :: "bool option"
  vc_skipChangelog :: "bool option"
  vc_skipPublish :: "bool option"
  vc_skipUpstreamTracking :: "bool option"
  vc_skipPublishCheck :: "bool option"
  vc_skipDependencyCheck :: "bool option"
  vc_validatePack :: "bool option"
  vc_depsReport :: "bool option"
  vc_depsReportJson :: "bool option"

text \<open>\<open>a ?? b\<close>: the left operand unless it is \<open>undefined\<close>.\<close>

fun nullish :: "'a option \<Rightarrow> 'a option \<Rightarrow> 'a option" where
  "nullish None b = b"
| "nullish (Some a) b = Some a"

definition onlyMode :: "ValidateCommandOptions \<Rightarrow> bool" where
  "onlyMode options =
     flag (nullish (vc_authOnly options)
          (nullish (vc_gitOnly options)
          (nullish (vc_depsOnly options)
          (nullish (vc_versionOnly options)
          (nullish (vc_changelogOnly options) (vc_publishOnly options))))))"

definition shouldValidate :: "ValidateCommandOptions \<Rightarrow> string \<Rightarrow> bool" where
  "shouldValidate options check =
     (if onlyMode options then
        (if check = ''auth'' then flag (vc_authOnly options)
         else if check = ''git'' then flag (vc_gitOnly options)
         else if check = ''deps'' then flag (vc_depsOnly options)
         else if check = ''version'' then flag (vc_versionOnly options)
         else if check = ''changelog'' then flag (vc_changelogOnly options)
         else if check = ''publish'' then flag (vc_publishOnly options)
         else False)
      else
        (if check = ''auth'' then \<not> flag (vc_skipAuth options)
         else if check = ''git'' then \<not> flag (vc_skipGit options)
         else if check = ''deps'' then \<not> flag (vc_skipDeps options)
         else if check = ''version'' then \<not> flag (vc_skipVersion options)
         else if check = ''changelog'' then \<not> flag (vc_skipChangelog options)
         else if check = ''publish'' then \<not> flag (vc_skipPublish options)
         else True))"

text \<open>
  What \<open>validatePackage\<close> reads of the package's \<open>ReleaseConfig\<close>, and of the result of
  the integrity service (the severities of its issues).
\<close>

record ReleaseConfig =
  npm_publish :: bool
  packageManager :: string

record IntegrityResult =
  issueSeverities :: "string list"

text \<open>
  The collaborators of a \<open>ValidateCommand\<close>: its git service, and the methods called on
  the workspace, package manager, integrity, version and changelog services, which are
  parameters of this development. (\<open>PackageManagerFactory.create\<close> picks the npm or the
  yarn service, the two values of its argument's type; the service it returns is the
  one given here.)
\<close>

record 'g ValidateCommand =
  gitService :: "'g GitService"
  getPackageConfig :: "string \<Rightarrow> 'g \<Rightarrow> (thrown + ReleaseConfig) \<times> 'g"
  pm_validateAuth :: "'g \<Rightarrow> (thrown + unit) \<times> 'g"
  pm_getLatestVersion :: "string \<Rightarrow> 'g \<Rightarrow> (thrown + string) \<times> 'g"
  pm_pack :: "PackageContext \<Rightarrow> 'g \<Rightarrow> (thrown + unit) \<times> 'g"
  integrity_checkWithDetails :: "'g \<Rightarrow> (thrown + IntegrityResult) \<times> 'g"
  version_validateVersion :: "string \<Rightarrow> 'g \<Rightarrow> (thrown + unit) \<times> 'g"
  changelog_validate :: "PackageContext \<Rightarrow> 'g \<Rightarrow> (thrown + unit) \<times> 'g"

text \<open>
  A call of a collaborator, recorded in the trace. Of the logger, the trace of the
  validate command keeps the success and error lines; the informational lines of its
  reports are left out.
\<close>

definition call :: "event \<Rightarrow> ('g \<Rightarrow> 'a \<times> 'g) \<Rightarrow> 'g st \<Rightarrow> 'a \<times> 'g st" where
  "call ev f s = (case f (fst s) of (r, g) \<Rightarrow> (r, (g, snd s @ [ev])))"

definition validateGitStatus ::
  "'g ValidateCommand \<Rightarrow> ValidateCommandOptions \<Rightarrow> 'g st \<Rightarrow> (thrown + unit) \<times> 'g st" where
  "validateGitStatus cmd options s =
     (case validateStatus (gitService cmd)
             (Some \<lparr> skipUpstreamTracking = Some (flag (vc_skipUpstreamTracking options)),
                     force = None, allowBranch = None \<rparr>) s of
        (Inr _, s1) \<Rightarrow> (Inr (), logger Success ''Git status: OK'' None s1)
      | (Inl e, s1) \<Rightarrow> (Inl e, logger Err (''Git status: '' @ errorMessage e) None s1))"

definition authNotConfiguredMessage :: "string \<Rightarrow> string" where
  "authNotConfiguredMessage pm =
     ''Authentication not configured for '' @ pm @ ''.'' @ [NL] @
     ''Please configure authentication:'' @ [NL] @
     ''- For Yarn Berry: Add npmAuthToken to .yarnrc.yml'' @ [NL] @
     ''- For Yarn Classic: Run '' @ [CHR 0x27] @ ''yarn login'' @ [CHR 0x27] @ [NL] @
     ''- For NPM: Run '' @ [CHR 0x27] @ ''npm login'' @ [CHR 0x27]"

definition validatePackageManager ::
  "'g ValidateCommand \<Rightarrow> ReleaseConfig \<Rightarrow> PackageContext \<Rightarrow> ValidateCommandOptions \<Rightarrow>
   'g st \<Rightarrow> (thrown + unit) \<times> 'g st" where
  "validatePackageManager cmd cfg pkg options s =
     (if \<not> npm_publish cfg then (Inr (), s)
      else
        let tried =
              (case call PmValidateAuth (pm_validateAuth cmd) s of
                 (Inl e, s1) \<Rightarrow>
                   (case e of
                      Error m \<Rightarrow>
                        if includes_str m ''No authentication configured''
                        then (Inl (Error (authNotConfiguredMessage (packageManager cfg))), s1)
                        else (Inl (Error (''Authentication failed: '' @ m)), s1)
                    | Thrown v \<Rightarrow> (Inl (Error (''Authentication failed: '' @ v)), s1))
               | (Inr _, s1) \<Rightarrow>
                   let s2 = logger Success ''Package manager authentication: OK'' None s1 in
                   if flag (vc_skipPublishCheck options) then (Inr (), s2)
                   else
                     (case call (PmGetLatestVersion (name pkg)) (pm_getLatestVersion cmd (name pkg)) s2 of
                        (Inl e, s3) \<Rightarrow> (Inl e, s3)
                      | (Inr latestVersion, s3) \<Rightarrow>
                          if latestVersion = currentVersion pkg
                          then (Inl (Error (''Version '' @ currentVersion pkg @
                                  '' already exists in registry. '' @
                                  ''Please increment the version number before publishing.'')), s3)
                          else
                            (case (if flag (vc_validatePack options)
                                   then (case call (PmPack (name pkg)) (pm_pack cmd pkg) s3 of
                                           (Inl e, s4) \<Rightarrow>
                                             (Inl (Error (''Failed to pack package: '' @ errorMessage e @
                                                [NL] @ ''Please ensure all required files are present and build artifacts are generated.'')), s4)
                                         | (Inr _, s4) \<Rightarrow>
                                             (Inr (), logger Success ''Package pack validation: OK'' None s4))
                                   else (Inr (), s3)) of
                               (Inl e, s5) \<Rightarrow> (Inl e, s5)
                             | (Inr _, s5) \<Rightarrow>
                                 (Inr (), logger Success ''Package publish readiness: OK'' None s5))))
        in case tried of
             (Inl e, s') \<Rightarrow>
               (Inl e, logger Err (''Package manager validation: '' @ errorMessage e) None s')
           | (Inr _, s') \<Rightarrow> (Inr (), s'))"

definition validateDependencies ::
  "'g ValidateCommand \<Rightarrow> ValidateCommandOptions \<Rightarrow> 'g st \<Rightarrow> (thrown + unit) \<times> 'g st" where
  "validateDependencies cmd options s =
     (if flag (vc_skipDependencyCheck options) then (Inr (), s)
      else
        let tried =
              (case call IntegrityCheckWithDetails (integrity_checkWithDetails cmd) s of
                 (Inl e, s1) \<Rightarrow> (Inl e, s1)
               | (Inr result, s1) \<Rightarrow>
                   if flag (vc_depsReportJson options)
                   then (Inr (), (fst s1, snd s1 @ [ConsoleLogJson]))
                   else if \<not> flag (vc_depsReport options) \<and>
                           list_ex (\<lambda>sev. sev = ''error'') (issueSeverities result)
                   then (Inl (Error ''Dependency validation failed. Please address the issues above.''), s1)
                   else if \<not> flag (vc_depsReport options)
                   then (Inr (), logger Success ''Dependencies validation: OK'' None s1)
                   else (Inr (), s1))
        in case tried of
             (Inl e, s') \<Rightarrow>
               if \<not> flag (vc_depsReport options)
               then (Inl e, logger Err (''Dependencies validation: '' @ errorMessage e) None s')
               else (Inr (), s')
           | (Inr _, s') \<Rightarrow> (Inr (), s'))"

definition validateVersioning ::
  "'g ValidateCommand \<Rightarrow> PackageContext \<Rightarrow> 'g st \<Rightarrow> (thrown + unit) \<times> 'g st" where
  "validateVersioning cmd pkg s =
     (case call (VersionValidateVersion (currentVersion pkg))
             (version_validateVersion cmd (currentVersion pkg)) s of
        (Inr _, s1) \<Rightarrow> (Inr (), logger Success ''Version format validation: OK'' None s1)
      | (Inl e, s1) \<Rightarrow> (Inl e, logger Err (''Version validation: '' @ errorMessage e) None s1))"

definition validateChangelog ::
  "'g ValidateCommand \<Rightarrow> PackageContext \<Rightarrow> 'g st \<Rightarrow> (thrown + unit) \<times> 'g st" where
  "validateChangelog cmd pkg s =
     (case call (ChangelogValidate (name pkg)) (changelog_validate cmd pkg) s of
        (Inr _, s1) \<Rightarrow> (Inr (), logger Success ''Changelog validation: OK'' None s1)
      | (Inl e, s1) \<Rightarrow> (Inl e, logger Err (''Changelog validation: '' @ errorMessage e) None s1))"

text \<open>
  A \<open>ValidationResult\<close> without its duration (a reading of the clock), and the report
  of one package.
\<close>

record ValidationResult =
  vr_name :: string
  vr_success :: bool
  vr_error :: "string option"

record PackageValidationReport =
  pr_packageName :: string
  pr_validations :: "ValidationResult list"
  pr_hasErrors :: bool

definition runValidation ::
  "string \<Rightarrow> ('g st \<Rightarrow> (thrown + unit) \<times> 'g st) \<Rightarrow> 'g st \<Rightarrow> ValidationResult \<times> 'g st" where
  "runValidation nm validationFn s =
     (case validationFn s of
        (Inr _, s1) \<Rightarrow> (\<lparr> vr_name = nm, vr_success = True, vr_error = None \<rparr>, s1)
      | (Inl e, s1) \<Rightarrow>
          (\<lparr> vr_name = nm, vr_success = False, vr_error = Some (errorMessage e) \<rparr>, s1))"

text \<open>
  One \<open>if (...) validations.push(await runValidation(...))\<close> statement: the list of
  results and the state after it.
\<close>

definition pushIf ::
  "bool \<Rightarrow> string \<Rightarrow> ('g st \<Rightarrow> (thrown + unit) \<times> 'g st) \<Rightarrow>
   ValidationResult list \<times> 'g st \<Rightarrow> ValidationResult list \<times> 'g st" where
  "pushIf cond nm validationFn acc =
     (if cond
      then (case runValidation nm validationFn (snd acc) of (r, s1) \<Rightarrow> (fst acc @ [r], s1))
      else acc)"

definition validatePackage ::
  "'g ValidateCommand \<Rightarrow> PackageContext \<Rightarrow> ValidateCommandOptions \<Rightarrow> 'g st \<Rightarrow>
   (thrown + PackageValidationReport) \<times> 'g st" where
  "validatePackage cmd pkg options s =
     (case call (GetPackageConfig (name pkg)) (getPackageConfig cmd (name pkg)) s of
        (Inl e, s0) \<Rightarrow> (Inl e, s0)
      | (Inr packageConfig, s0) \<Rightarrow>
          let a1 = pushIf (shouldValidate options ''git'') ''Git Status''
                     (validateGitStatus cmd options) ([], s0);
              a2 = pushIf (shouldValidate options ''auth'' \<or> shouldValidate options ''publish'')
                     ''Package Manager''
                     (validatePackageManager cmd packageConfig pkg options) a1;
              a3 = pushIf (shouldValidate options ''deps'') ''Dependencies''
                     (validateDependencies cmd options) a2;
              a4 = pushIf (shouldValidate options ''version'') ''Version Format''
                     (validateVersioning cmd pkg) a3;
              a5 = pushIf (shouldValidate options ''changelog'') ''Changelog''
                     (validateChangelog cmd pkg) a4
          in (Inr \<lparr> pr_packageName = name pkg,
                     pr_validations = fst a5,
                     pr_hasErrors = list_ex (\<lambda>v. \<not> vr_success v) (fst a5) \<rparr>, snd a5))"

text \<open>
  The selection the specification describes: a fixed registry of named checks with an
  inclusion predicate, where an explicit include-list (the \<open>only\<close> flags) overrides the
  exclude-list (the \<open>skip\<close> flags).
\<close>

datatype check = Auth | Git | Deps | Version | Changelog | Publish

fun checkName :: "check \<Rightarrow> string" where
  "checkName Auth = ''auth''"
| "checkName Git = ''git''"
| "checkName Deps = ''deps''"
| "checkName Version = ''version''"
| "checkName Changelog = ''changelog''"
| "checkName Publish = ''publish''"

fun onlyFlag :: "ValidateCommandOptions \<Rightarrow> check \<Rightarrow> bool" where
  "onlyFlag options Auth = flag (vc_authOnly options)"
| "onlyFlag options Git = flag (vc_gitOnly options)"
| "onlyFlag options Deps = flag (vc_depsOnly options)"
| "onlyFlag options Version = flag (vc_versionOnly options)"
| "onlyFlag options Changelog = flag (vc_changelogOnly options)"
| "onlyFlag options Publish = flag (vc_publishOnly options)"

fun skipFlag :: "ValidateCommandOptions \<Rightarrow> check \<Rightarrow> bool" where
  "skipFlag options Auth = flag (vc_skipAuth options)"
| "skipFlag options Git = flag (vc_skipGit options)"
| "skipFlag options Deps = flag (vc_skipDeps options)"
| "skipFlag options Version = flag (vc_skipVersion options)"
| "skipFlag options Changelog = flag (vc_skipChangelog options)"
| "skipFlag options Publish = flag (vc_skipPublish options)"

definition registry :: "check list" where
  "registry = [Auth, Git, Deps, Version, Changelog, Publish]"

definition selected :: "ValidateCommandOptions \<Rightarrow> check \<Rightarrow> bool" where
  "selected options c =
     (if list_ex (onlyFlag options) registry then onlyFlag options c else \<not> skipFlag options c)"

text \<open>The flags as the command line gives them: an \<open>only\<close> flag is absent or \<open>true\<close>.\<close>

definition commandLineFlags :: "ValidateCommandOptions \<Rightarrow> bool" where
  "commandLineFlags options =
     list_all (\<lambda>f. f options \<noteq> Some False)
       [vc_authOnly, vc_gitOnly, vc_depsOnly, vc_versionOnly, vc_changelogOnly, vc_publishOnly]"

section \<open>The release command\<close>

record ReleaseCommandOptions =
  rc_all :: "bool option"
  rc_dryRun :: "bool option"
  rc_version :: "string option"
  rc_gitPush :: "bool option"
  rc_npmPublish :: "bool option"
  rc_showChanges :: "bool option"
  rc_checkIntegrity :: "bool option"
  rc_gitCheck :: "bool option"
  rc_skipUpstreamTracking :: "bool option"
  rc_force :: "bool option"
  rc_allowBranch :: "bool option"
  rc_otp :: "string option"

text \<open>
  The values exchanged with the release service (declared in core/release and
  types/config): what the command reads of them.
\<close>

record DependencyUpdate =
  du_name :: string
  du_currentVersion :: string
  du_newVersion :: string
  du_type :: string

record PackageChanges =
  pc_name :: string
  pc_currentVersion :: string
  pc_suggestedVersion :: string
  pc_hasGitChanges :: bool
  pc_dependencies :: "DependencyUpdate list"

record DryRunReport =
  dr_packageName :: string
  dr_currentVersion :: string
  dr_newVersion :: string
  dr_tag :: string
  dr_willPush :: bool
  dr_npm :: "bool option"
  dr_dependencies :: "DependencyUpdate list option"
  dr_changelog :: string

record DryRunOptions =
  do_dryRun :: bool
  do_gitPush :: "bool option"
  do_publish :: "bool option"
  do_skipGitCheck :: bool
  do_skipUpstreamTracking :: "bool option"
  do_force :: "bool option"
  do_newVersion :: string

record ReleaseOptions =
  ro_dryRun :: "bool option"
  ro_gitPush :: "bool option"
  ro_npmPublish :: "bool option"
  ro_skipIntegrityCheck :: "bool option"
  ro_skipGitCheck :: bool
  ro_skipUpstreamTracking :: "bool option"
  ro_force :: "bool option"
  ro_allowBranch :: "bool option"

text \<open>
  A result of \<open>releasePackages\<close>: a dry-run report (it has a \<open>newVersion\<close>) or a release
  result, each with the package name and the version.
\<close>

datatype ReleaseOutcome = DryRunOutcome string string | ReleasedOutcome string string

text \<open>
  The collaborators of the release command, acting on the outside world \<open>'w\<close> (the
  repository, the registry, the manifest and changelog files): the configuration
  loader, the workspace service, the release service built from the configuration \<open>'c\<close>,
  the prompt, and \<open>chalk.gray\<close>. They are parameters of this development.
\<close>

record ('c, 'w) ReleaseCollaborators =
  loadConfig :: "'w \<Rightarrow> (thrown + 'c) \<times> 'w"
  withOtp :: "string \<Rightarrow> 'c \<Rightarrow> 'c"
  getChangedPackages :: "'w \<Rightarrow> (thrown + string list) \<times> 'w"
  getCurrentPackage :: "'w \<Rightarrow> (thrown + string option) \<times> 'w"
  analyzeChanges :: "'c \<Rightarrow> string list \<Rightarrow> 'w \<Rightarrow> (thrown + PackageChanges list) \<times> 'w"
  createDryRunPreview :: "'c \<Rightarrow> PackageChanges \<Rightarrow> DryRunOptions \<Rightarrow> 'w \<Rightarrow> (thrown + DryRunReport) \<times> 'w"
  previewChangelog :: "'c \<Rightarrow> string \<Rightarrow> 'w \<Rightarrow> (thrown + string) \<times> 'w"
  getGitChanges :: "'c \<Rightarrow> string \<Rightarrow> 'w \<Rightarrow> (thrown + GitCommit list) \<times> 'w"
  confirmRelease :: "'w \<Rightarrow> (thrown + bool) \<times> 'w"
  releaseAll :: "'c \<Rightarrow> ReleaseOptions \<Rightarrow> 'w \<Rightarrow> (thrown + unit) \<times> 'w"
  releasePackages :: "'c \<Rightarrow> string list \<Rightarrow> ReleaseOptions \<Rightarrow> 'w \<Rightarrow> (thrown + ReleaseOutcome list) \<times> 'w"
  gray :: "string \<Rightarrow> string"

text \<open>
  The trace of the release command: the calls of its collaborators (a release call with
  the options it is given) and the lines logged.
\<close>

datatype revent =
    RLog level "string list"
  | LoadConfig
  | GetChangedPackages
  | GetCurrentPackage
  | AnalyzeChanges "string list"
  | CreateDryRunPreview string
  | PreviewChangelog string
  | GetGitChanges string
  | ConfirmRelease
  | ReleaseAll ReleaseOptions
  | ReleasePackages "string list" ReleaseOptions

type_synonym 'w rst = "'w \<times> revent list"

definition rcall :: "revent \<Rightarrow> ('w \<Rightarrow> 'a \<times> 'w) \<Rightarrow> 'w rst \<Rightarrow> 'a \<times> 'w rst" where
  "rcall ev f s = (case f (fst s) of (r, w) \<Rightarrow> (r, (w, snd s @ [ev])))"


definition infos :: "string list \<Rightarrow> 'w rst \<Rightarrow> 'w rst" where
  "infos ms s = (fst s, snd s @ map (\<lambda>m. RLog Info [m]) ms)"







text \<open>How the command ends: \<open>process.exit(code)\<close>, or the action returns.\<close>

datatype ending = Exit nat | Returned

definition releaseOptionsFor :: "ReleaseCommandOptions \<Rightarrow> ReleaseOptions" where
  "releaseOptionsFor opts =
     \<lparr> ro_dryRun = rc_dryRun opts,
       ro_gitPush = rc_gitPush opts,
       ro_npmPublish = rc_npmPublish opts,
       ro_skipIntegrityCheck = rc_checkIntegrity opts,
       ro_skipGitCheck = (\<not> flag (rc_gitCheck opts)),
       ro_skipUpstreamTracking = rc_skipUpstreamTracking opts,
       ro_force = rc_force opts,
       ro_allowBranch = rc_allowBranch opts \<rparr>"

definition resultLine :: "ReleaseOutcome \<Rightarrow> string" where
  "resultLine r =
     (case r of
        DryRunOutcome pkgName v \<Rightarrow> ''  '' @ pkgName @ '': '' @ v @ '' (dry run)''
      | ReleasedOutcome pkgName v \<Rightarrow> ''  '' @ pkgName @ '': '' @ v)"


text \<open>The last part of the action: the release itself.\<close>

definition proceed ::
  "('c, 'w) ReleaseCollaborators \<Rightarrow> 'c \<Rightarrow> ReleaseCommandOptions \<Rightarrow> string list \<Rightarrow>
   'w rst \<Rightarrow> (thrown + ending) \<times> 'w rst" where
  "proceed env cfg opts pkgs s =
     (if flag (rc_all opts) then
        (case rcall (ReleaseAll (releaseOptionsFor opts))
                (releaseAll env cfg (releaseOptionsFor opts)) s of
           (Inl e, s1) \<Rightarrow> (Inl e, s1)
         | (Inr _, s1) \<Rightarrow> (Inr Returned, s1))
      else
        (case rcall (ReleasePackages pkgs (releaseOptionsFor opts))
                (releasePackages env cfg pkgs (releaseOptionsFor opts)) s of
           (Inl e, s1) \<Rightarrow> (Inl e, s1)
         | (Inr results, s1) \<Rightarrow>
             (Inr Returned, infos (''Release results:'' # map resultLine results) s1)))"











section \<open>A small repository to run the code on\<close>

text \<open>
  A concrete simple-git object for the examples: a repository with local tags, two
  fixed log outputs (the whole history, and the history since any existing tag) and
  switches that make the deletion of a local tag, the push and the tagging fail.
\<close>

record repo =
  localTags :: "string list"
  logAll :: string
  logSince :: string
  deleteFails :: bool
  pushFails :: bool
  statusNow :: StatusResult

definition demoRaw :: "string list \<Rightarrow> repo \<Rightarrow> (thrown + string) \<times> repo" where
  "demoRaw args r =
     (if args = [''log'', ''-1'', ''--oneline''] then (Inr ''c1 head'', r)
      else if take 1 args = [''log''] \<and> length args = 3 then (Inr (logAll r), r)
      else if take 1 args = [''log''] \<and> length args = 4 then
        (if list_ex (\<lambda>t. args ! 3 = t @ ''..HEAD'') (localTags r) then (Inr (logSince r), r)
         else (Inl (Error ''fatal: bad revision''), r))
      else if take 1 args = [''rev-parse''] \<and> length args = 2 then
        (if list_ex (\<lambda>t. args ! 1 = ''refs/tags/'' @ t) (localTags r) then (Inr (args ! 1), r)
         else (Inl (Error ''fatal: unknown revision''), r))
      else if take 2 args = [''tag'', ''-d''] \<and> length args = 3 then
        (if deleteFails r then (Inl (Error ''cannot delete''), r)
         else (Inr ''Deleted tag'', r\<lparr>localTags := removeAll (args ! 2) (localTags r)\<rparr>))
      else if take 1 args = [''push''] then
        (if pushFails r then (Inl (Error ''remote rejected''), r) else (Inr [], r))
      else (Inl (Error ''unsupported''), r))"

definition demoGit :: "repo SimpleGit" where
  "demoGit =
     \<lparr> git_raw = demoRaw,
       git_status = (\<lambda>r. (Inr (statusNow r), r)),
       git_fetch = (\<lambda>_ r. (Inr (), r)),
       git_tags = (\<lambda>r. (Inr (localTags r), r)),
       git_add = (\<lambda>_ r. (Inr (), r)),
       git_commit = (\<lambda>_ r. (Inr (), r)),
       git_addAnnotatedTag = (\<lambda>t _ r.
          if t \<in> set (localTags r) then (Inl (Error (''tag '' @ t @ '' already exists'')), r)
          else (Inr (), r\<lparr>localTags := localTags r @ [t]\<rparr>)) \<rparr>"

definition demoConfig :: GitConfig where
  "demoConfig =
     \<lparr> tagPrefix = [],
       requireCleanWorkingDirectory = True,
       requireUpToDate = False,
       commitMessage = ''chore(release): release ${packageName}@${version}'',
       tagMessage = None,
       allowedBranches = Some [''main''],
       remote = ''origin'' \<rparr>"

text \<open>
  The service of the examples, rooted at \<open>/r\<close>: \<open>path.relative\<close> strips the root and
  the slash, \<open>path.join\<close> puts a slash between two non-empty parts, and
  \<open>formatGitTag\<close> gives \<open><prefix><packageName>@<version>\<close>.
\<close>

definition demoService :: "repo GitService" where
  "demoService =
     \<lparr> git = demoGit,
       rootDir = ''/r'',
       config = demoConfig,
       path_relative = (\<lambda>from to. if prefix (from @ ''/'') to then drop (length from + 1) to
                                    else if to = from then [] else to),
       path_join = (\<lambda>a b. if a = [] then b else if b = [] then a else a @ ''/'' @ b),
       formatGitTag = (\<lambda>name version pre. pre @ name @ ''@'' @ version) \<rparr>"

definition demoLog :: string where
  "demoLog = ''COMMIT'' @ [NL] @ ''h1'' @ [NL] @ ''d1'' @ [NL] @ ''fix: one'' @ [NL] @ [NL] @
             ''FILES'' @ [NL] @ [NL] @ ''packages/a/x.ts'' @ [NL] @
             ''COMMIT'' @ [NL] @ ''h2'' @ [NL] @ ''d2'' @ [NL] @ ''feat(b): two'' @ [NL] @ [NL] @
             ''FILES'' @ [NL] @ [NL] @ ''packages/b/y.ts'' @ [NL]"

definition demoRepo :: repo where
  "demoRepo =
     \<lparr> localTags = [''a@1.0.0'', ''a@1.0.1''],
       logAll = demoLog,
       logSince = demoLog,
       deleteFails = False,
       pushFails = False,
       statusNow = \<lparr> isClean = True, file_paths = [], tracking = None,
                     current = Some ''dev'', behind = 0 \<rparr> \<rparr>"

definition demoContext :: PackageContext where
  "demoContext =
     \<lparr> name = ''a'', path = ''/r/packages/a'', currentVersion = ''1.0.0'',
       newVersion = Some ''1.0.1'' \<rparr>"

definition noFlags :: ValidateCommandOptions where
  "noFlags =
     \<lparr> vc_all = None, vc_authOnly = None, vc_gitOnly = None, vc_depsOnly = None,
       vc_versionOnly = None, vc_changelogOnly = None, vc_publishOnly = None,
       vc_skipAuth = None, vc_skipGit = None, vc_skipDeps = None, vc_skipVersion = None,
       vc_skipChangelog = None, vc_skipPublish = None, vc_skipUpstreamTracking = None,
       vc_skipPublishCheck = None, vc_skipDependencyCheck = None, vc_validatePack = None,
       vc_depsReport = None, vc_depsReportJson = None \<rparr>"

text \<open>A validate command over the small repository, all of whose collaborators succeed.\<close>

definition demoCommand :: "repo ValidateCommand" where
  "demoCommand =
     \<lparr> gitService = demoService,
       getPackageConfig = (\<lambda>_ r. (Inr \<lparr> npm_publish = True, packageManager = ''npm'' \<rparr>, r)),
       pm_validateAuth = (\<lambda>r. (Inr (), r)),
       pm_getLatestVersion = (\<lambda>_ r. (Inr ''0.9.0'', r)),
       pm_pack = (\<lambda>_ r. (Inr (), r)),
       integrity_checkWithDetails = (\<lambda>r. (Inr \<lparr> issueSeverities = [] \<rparr>, r)),
       version_validateVersion = (\<lambda>_ r. (Inr (), r)),
       changelog_validate = (\<lambda>_ r. (Inr (), r)) \<rparr>"




section \<open>Properties of the commit history reader\<close>

lemma getAllCommits_trace_indep:
  "fst (getAllCommits svc (g, tr)) = fst (getAllCommits svc (g, tr'))"
  by (simp add: getAllCommits_def raw_def split: prod.splits sum.splits)

lemma fold_matched:
  "h \<in> fold (\<lambda>c m. if P c then insert (hash c) m else m) cs M \<longleftrightarrow>
     h \<in> M \<or> (\<exists>c \<in> set cs. hash c = h \<and> P c)"
  by (induction cs arbitrary: M) auto

lemma applyFilters_eq:
  "applyFilters svc opts commits =
     filter (\<lambda>c. \<exists>c' \<in> set commits. hash c' = hash c \<and>
                  commitMatches svc opts c')
       commits"
  unfolding applyFilters_def Let_def
  by (rule filter_cong) (auto simp: fold_matched commitMatches_def)

lemma filter_by_hash_distinct:
  assumes "distinct (map hash cs)"
  shows "filter (\<lambda>c. \<exists>c' \<in> set cs. hash c' = hash c \<and> P c') cs = filter P cs"
proof (rule filter_cong[OF refl])
  fix c assume c: "c \<in> set cs"
  have "\<And>c'. c' \<in> set cs \<Longrightarrow> hash c' = hash c \<Longrightarrow> c' = c"
    using assms c by (meson distinct_map inj_onD)
  then show "(\<exists>c' \<in> set cs. hash c' = hash c \<and> P c') = P c"
    using c by blast
qed

text \<open>
  Claim C1. With an empty tag argument, \<open>getCommitsSinceTag\<close> logs at info level and then
  is \<open>getAllCommits\<close>: it returns the same commits as \<open>getAllCommits\<close> run in the same
  repository, whatever the options; nothing is thrown and no error is logged for the
  missing tag.
\<close>

theorem getCommitsSinceTag_no_tag:
  "getCommitsSinceTag svc [] options s =
     getAllCommits svc (logger Info ''No previous tag found. Getting all commits instead.'' None s)
   \<and> fst (getCommitsSinceTag svc [] options s) = fst (getAllCommits svc s)"
proof -
  obtain g tr where s: "s = (g, tr)" by (cases s)
  show ?thesis
    unfolding s getCommitsSinceTag_def logger_def
    using getAllCommits_trace_indep[of svc g] by simp
qed

text \<open>
  Claim C2, amended. With a non-empty tag, when the verifying log call or the log call
  for \<open><tag>..HEAD\<close> throws, \<open>getCommitsSinceTag\<close> does not throw: it logs the failure at
  error level and returns the empty list (not the commits of the whole history).
\<close>

theorem getCommitsSinceTag_failed_log:
  assumes "tag \<noteq> []"
    and "raw svc [''log'', ''-1'', ''--oneline''] s = (Inl e, s2) \<or>
         (\<exists>v s1. raw svc [''log'', ''-1'', ''--oneline''] s = (Inr v, s1) \<and>
            raw svc [''log'', logFormat, ''--name-only'', tag @ ''..HEAD''] s1 = (Inl e, s2))"
  shows "getCommitsSinceTag svc tag options s =
           ([], logger Err (''Failed to get commits since tag '' @ tag @ '':'') (Some e) s2)"
  using assms by (auto simp: getCommitsSinceTag_def)

text \<open>
  Claim C3, amended. With a non-empty tag and both log calls successful: without an
  options object every parsed commit is returned; with an options object a commit is kept
  if and only if some parsed commit with the same hash matches (a) or (b) of
  \<open>commitMatches\<close>, which for commits of distinct hashes means that the commit itself
  matches. (An options object with neither input therefore keeps no commit, and with an
  empty tag no filter is applied at all.)
\<close>

theorem getCommitsSinceTag_filter:
  assumes "tag \<noteq> []"
    and "raw svc [''log'', ''-1'', ''--oneline''] s = (Inr v, s1)"
    and "raw svc [''log'', logFormat, ''--name-only'', tag @ ''..HEAD''] s1 = (Inr result, s2)"
  shows "fst (getCommitsSinceTag svc tag None s) = parseCommits result \<and>
         fst (getCommitsSinceTag svc tag (Some opts) s) =
           filter (\<lambda>c. \<exists>c' \<in> set (parseCommits result). hash c' = hash c \<and> commitMatches svc opts c')
             (parseCommits result) \<and>
         (distinct (map hash (parseCommits result)) \<longrightarrow>
           fst (getCommitsSinceTag svc tag (Some opts) s) =
             filter (commitMatches svc opts) (parseCommits result))"
proof -
  have empty: "result = [] \<Longrightarrow> parseCommits result = []"
    by (simp add: parseCommits_def filterBoolean_def List.map_filter_def)
  have none: "fst (getCommitsSinceTag svc tag None s) = parseCommits result"
    using assms empty by (simp add: getCommitsSinceTag_def)
  have "fst (getCommitsSinceTag svc tag (Some opts) s) = applyFilters svc opts (parseCommits result)"
    using assms empty by (simp add: getCommitsSinceTag_def applyFilters_def Let_def)
  then have some: "fst (getCommitsSinceTag svc tag (Some opts) s) =
      filter (\<lambda>c. \<exists>c' \<in> set (parseCommits result). hash c' = hash c \<and> commitMatches svc opts c')
        (parseCommits result)"
    by (simp add: applyFilters_eq)
  show ?thesis
    using none some
      filter_by_hash_distinct[of "parseCommits result" "commitMatches svc opts"]
    by simp
qed

theorem getCommitsSinceTag_no_tag_witness:
  "getCommitsSinceTag demoService [] None (demoRepo, []) =
     getAllCommits demoService (demoRepo, [Log Info ''No previous tag found. Getting all commits instead.'' None])
   \<and> length (fst (getCommitsSinceTag demoService [] None (demoRepo, []))) = 2"
  using getCommitsSinceTag_no_tag[of demoService None "(demoRepo, [])"]
  apply (simp add: logger_def)
  apply code_simp
  done


lemma demo_verify:
  "raw demoService [''log'', ''-1'', ''--oneline''] (demoRepo, tr) =
     (Inr ''c1 head'', (demoRepo, tr @ [GitRaw [''log'', ''-1'', ''--oneline'']]))"
  by (simp add: raw_def demoService_def demoGit_def demoRaw_def)

lemma demo_log_missing_tag:
  "raw demoService [''log'', logFormat, ''--name-only'', ''a@9..HEAD''] (demoRepo, tr) =
     (Inl (Error ''fatal: bad revision''),
      (demoRepo, tr @ [GitRaw [''log'', logFormat, ''--name-only'', ''a@9..HEAD'']]))"
  by (simp add: raw_def demoService_def demoGit_def demoRaw_def demoRepo_def)

lemma demo_log_since:
  "raw demoService [''log'', logFormat, ''--name-only'', ''a@1.0.0..HEAD''] (demoRepo, tr) =
     (Inr demoLog, (demoRepo, tr @ [GitRaw [''log'', logFormat, ''--name-only'', ''a@1.0.0..HEAD'']]))"
  by (simp add: raw_def demoService_def demoGit_def demoRaw_def demoRepo_def)

lemma demo_parse:
  "parseCommits demoLog =
     [\<lparr>hash = ''h1'', date = ''d1'', message = ''fix: one'', body = None,
       files = [''packages/a/x.ts'']\<rparr>,
      \<lparr>hash = ''h2'', date = ''d2'', message = ''feat(b): two'', body = None,
       files = [''packages/b/y.ts'']\<rparr>]"
  by code_simp

theorem getCommitsSinceTag_failed_log_witness:
  "getCommitsSinceTag demoService ''a@9'' None (demoRepo, []) =
     ([], (demoRepo, [GitRaw [''log'', ''-1'', ''--oneline''],
                      GitRaw [''log'', logFormat, ''--name-only'', ''a@9..HEAD''],
                      Log Err ''Failed to get commits since tag a@9:''
                        (Some (Error ''fatal: bad revision''))]))"
proof -
  have "raw demoService [''log'', ''-1'', ''--oneline''] (demoRepo, []) =
          (Inl (Error ''fatal: bad revision''),
           (demoRepo, [GitRaw [''log'', ''-1'', ''--oneline''],
                       GitRaw [''log'', logFormat, ''--name-only'', ''a@9..HEAD'']])) \<or>
        (\<exists>v s1. raw demoService [''log'', ''-1'', ''--oneline''] (demoRepo, []) = (Inr v, s1) \<and>
           raw demoService [''log'', logFormat, ''--name-only'', ''a@9'' @ ''..HEAD''] s1 =
             (Inl (Error ''fatal: bad revision''),
              (demoRepo, [GitRaw [''log'', ''-1'', ''--oneline''],
                          GitRaw [''log'', logFormat, ''--name-only'', ''a@9..HEAD'']])))"
    using demo_verify[of "[]"] demo_log_missing_tag[of "[GitRaw [''log'', ''-1'', ''--oneline'']]"]
    by simp
  from getCommitsSinceTag_failed_log[OF _ this, of None] show ?thesis
    by (simp add: logger_def)
qed

theorem getCommitsSinceTag_missing_tag_counterexample:
  "fst (getCommitsSinceTag demoService ''a@9'' None (demoRepo, [])) = [] \<and>
   length (fst (getAllCommits demoService (demoRepo, []))) = 2"
  by code_simp

theorem getCommitsSinceTag_filter_witness:
  "fst (getCommitsSinceTag demoService ''a@1.0.0'' None (demoRepo, [])) = parseCommits demoLog \<and>
   fst (getCommitsSinceTag demoService ''a@1.0.0''
          (Some \<lparr>packageName = Some ''b'', packagePath = Some ''/r/packages/a'', filterByPath = Some True\<rparr>)
          (demoRepo, [])) = parseCommits demoLog \<and>
   fst (getCommitsSinceTag demoService ''a@1.0.0''
          (Some \<lparr>packageName = None, packagePath = Some ''/r/packages/a'', filterByPath = None\<rparr>)
          (demoRepo, [])) = [hd (parseCommits demoLog)]"
proof -
  have d: "distinct (map hash (parseCommits demoLog))"
    by (simp add: demo_parse)
  have t: "''a@1.0.0'' \<noteq> []" by simp
  note w = getCommitsSinceTag_filter[OF t demo_verify[of "[]"], simplified, OF demo_log_since]
  have m1: "filter (commitMatches demoService \<lparr>packageName = Some ''b'', packagePath = Some ''/r/packages/a'', filterByPath = Some True\<rparr>)
              (parseCommits demoLog) = parseCommits demoLog"
    unfolding demo_parse by (simp add: commitMatches_def pathMatches_def nameMatches_def demoService_def)
  have m2: "filter (commitMatches demoService \<lparr>packageName = None, packagePath = Some ''/r/packages/a'', filterByPath = None\<rparr>)
              (parseCommits demoLog) = [hd (parseCommits demoLog)]"
    unfolding demo_parse by (simp add: commitMatches_def pathMatches_def nameMatches_def demoService_def)
  note a = w[of "\<lparr>packageName = Some ''b'', packagePath = Some ''/r/packages/a'', filterByPath = Some True\<rparr>"]
  note b = w[of "\<lparr>packageName = None, packagePath = Some ''/r/packages/a'', filterByPath = None\<rparr>"]
  show ?thesis
    using a[THEN conjunct1] a[THEN conjunct2, THEN conjunct2, rule_format, OF d]
      b[THEN conjunct2, THEN conjunct2, rule_format, OF d]
    by (simp only: m1 m2 simp_thms)
qed

theorem getCommitsSinceTag_empty_options_counterexample:
  "fst (getCommitsSinceTag demoService ''a@1.0.0''
          (Some \<lparr>packageName = None, packagePath = None, filterByPath = None\<rparr>) (demoRepo, [])) = [] \<and>
   length (fst (getCommitsSinceTag demoService ''a@1.0.0'' None (demoRepo, []))) = 2 \<and>
   length (fst (getCommitsSinceTag demoService []
          (Some \<lparr>packageName = Some ''zzz'', packagePath = Some ''/r/packages/zzz'', filterByPath = None\<rparr>)
          (demoRepo, []))) = 2"
  by code_simp

section \<open>Properties of status validation, tags and the release commit\<close>

lemma raw_trace: "raw svc args s = (r, s') \<Longrightarrow> snd s' = snd s @ [GitRaw args]"
  by (auto simp: raw_def split: prod.splits)

lemma status_trace: "status svc s = (r, s') \<Longrightarrow> snd s' = snd s @ [GitStatus]"
  by (auto simp: status_def split: prod.splits)

lemma fetch_trace: "fetch svc rem s = (r, s') \<Longrightarrow> snd s' = snd s @ [GitFetch rem]"
  by (auto simp: fetch_def split: prod.splits)

lemma demo_status:
  "status demoService (demoRepo, tr) = (Inr (statusNow demoRepo), (demoRepo, tr @ [GitStatus]))"
  by (simp add: status_def demoService_def demoGit_def)

text \<open>
  Claim C10, amended. When the status call succeeds, the clean-working-directory check
  passes and the branch has no upstream: \<open>validateStatus\<close> returns successfully right after
  that check (no fetch, no behind-remote check, no allowed-branches check, whatever the
  allowed branches are) provided \<open>skipUpstreamTracking\<close> is \<open>true\<close>, or it is
  \<open>undefined\<close> and \<open>requireUpToDate\<close> is disabled. An explicit \<open>false\<close> is not overridden
  by the configuration: with \<open>requireUpToDate\<close> disabled the allowed-branches check
  decides the result, and with \<open>requireUpToDate\<close> enabled (the option \<open>false\<close> or
  \<open>undefined\<close>) the remote is fetched, a missing current branch is an error and the
  allowed-branches check follows.
\<close>

theorem validateStatus_untracked_skip:
  assumes "status svc s = (Inr st, s1)"
    and "\<not> (requireCleanWorkingDirectory (config svc) \<and> \<not> isClean st)"
    and "\<not> truthy (tracking st)"
  shows "(requestedSkip options = Some True \<or>
          (requestedSkip options = None \<and> \<not> requireUpToDate (config svc)) \<longrightarrow>
            validateStatus svc options s = (Inr (), s1) \<and> snd s1 = snd s @ [GitStatus]) \<and>
         (requestedSkip options = Some False \<and> \<not> requireUpToDate (config svc) \<longrightarrow>
            validateStatus svc options s = (allowedBranchesCheck (config svc) options st, s1) \<and>
            snd s1 = snd s @ [GitStatus]) \<and>
         (requestedSkip options \<noteq> Some True \<and> requireUpToDate (config svc) \<and>
          fetch svc (remote (config svc)) s1 = (fetched, s2) \<longrightarrow>
            validateStatus svc options s =
              (case fetched of
                 Inl e \<Rightarrow> Inl e
               | Inr _ \<Rightarrow>
                   if current st = None \<or> current st = Some []
                   then Inl (Error ''Not currently on any branch'')
                   else allowedBranchesCheck (config svc) options st, s2) \<and>
            snd s2 = snd s @ [GitStatus, GitFetch (remote (config svc))])"
proof (intro conjI impI)
  assume "requestedSkip options = Some True \<or>
          (requestedSkip options = None \<and> \<not> requireUpToDate (config svc))"
  then show "validateStatus svc options s = (Inr (), s1)"
    using assms by (auto simp: validateStatus_def skipRemoteChecks_def Let_def)
  show "snd s1 = snd s @ [GitStatus]"
    by (rule status_trace[OF assms(1)])
next
  assume a: "requestedSkip options = Some False \<and> \<not> requireUpToDate (config svc)"
  then show "validateStatus svc options s = (allowedBranchesCheck (config svc) options st, s1)"
    using assms
    by (auto simp: validateStatus_def skipRemoteChecks_def allowedBranchesCheck_def Let_def
        split: option.splits)
  show "snd s1 = snd s @ [GitStatus]"
    by (rule status_trace[OF assms(1)])
next
  assume a: "requestedSkip options \<noteq> Some True \<and> requireUpToDate (config svc) \<and>
          fetch svc (remote (config svc)) s1 = (fetched, s2)"
  then have sk: "\<not> skipRemoteChecks (config svc) options"
    by (cases "requestedSkip options") (auto simp: skipRemoteChecks_def)
  show "validateStatus svc options s =
              (case fetched of
                 Inl e \<Rightarrow> Inl e
               | Inr _ \<Rightarrow>
                   if current st = None \<or> current st = Some []
                   then Inl (Error ''Not currently on any branch'')
                   else allowedBranchesCheck (config svc) options st, s2)"
    using assms a sk
    by (cases fetched)
      (auto simp: validateStatus_def allowedBranchesCheck_def Let_def split: option.splits)
  show "snd s2 = snd s @ [GitStatus, GitFetch (remote (config svc))]"
    using status_trace[OF assms(1)] fetch_trace[OF a[THEN conjunct2, THEN conjunct2]] by simp
qed

theorem validateStatus_untracked_skip_witness:
  "validateStatus demoService None (demoRepo, []) = (Inr (), (demoRepo, [GitStatus])) \<and>
   validateStatus demoService
     (Some \<lparr>skipUpstreamTracking = Some True, force = None, allowBranch = None\<rparr>) (demoRepo, []) =
     (Inr (), (demoRepo, [GitStatus])) \<and>
   validateStatus demoService
     (Some \<lparr>skipUpstreamTracking = Some False, force = None, allowBranch = None\<rparr>) (demoRepo, []) =
     (Inl (Error (branchNotAllowedMessage ''dev'' [''main''])), (demoRepo, [GitStatus])) \<and>
   validateStatus (demoService\<lparr>config := demoConfig\<lparr>requireUpToDate := True\<rparr>\<rparr>)
     (Some \<lparr>skipUpstreamTracking = Some False, force = None, allowBranch = Some True\<rparr>) (demoRepo, []) =
     (Inr (), (demoRepo, [GitStatus, GitFetch ''origin''])) \<and>
   current (statusNow demoRepo) = Some ''dev'' \<and>
   allowedBranches (config demoService) = Some [''main'']"
proof -
  let ?t = "Some \<lparr>skipUpstreamTracking = Some True, force = None, allowBranch = None\<rparr>"
  let ?f = "Some \<lparr>skipUpstreamTracking = Some False, force = None, allowBranch = None\<rparr>"
  let ?g = "Some \<lparr>skipUpstreamTracking = Some False, force = None, allowBranch = Some True\<rparr>"
  let ?svc = "demoService\<lparr>config := demoConfig\<lparr>requireUpToDate := True\<rparr>\<rparr>"
  have c: "\<not> (requireCleanWorkingDirectory (config demoService) \<and> \<not> isClean (statusNow demoRepo))"
    and t: "\<not> truthy (tracking (statusNow demoRepo))"
    and c': "\<not> (requireCleanWorkingDirectory (config ?svc) \<and> \<not> isClean (statusNow demoRepo))"
    by (simp_all add: demoService_def demoConfig_def demoRepo_def)
  have st': "status ?svc (demoRepo, []) = (Inr (statusNow demoRepo), (demoRepo, [GitStatus]))"
    by (simp add: status_def demoService_def demoGit_def)
  have n: "requestedSkip None = Some True \<or>
            (requestedSkip None = None \<and> \<not> requireUpToDate (config demoService))"
    and y: "requestedSkip ?t = Some True \<or>
            (requestedSkip ?t = None \<and> \<not> requireUpToDate (config demoService))"
    and f: "requestedSkip ?f = Some False \<and> \<not> requireUpToDate (config demoService)"
    by (simp_all add: demoService_def demoConfig_def requestedSkip_def)
  have g: "requestedSkip ?g \<noteq> Some True \<and> requireUpToDate (config ?svc) \<and>
      fetch ?svc (remote (config ?svc)) (demoRepo, [GitStatus]) =
        (Inr (), (demoRepo, [GitStatus, GitFetch ''origin'']))"
    by (simp add: demoService_def demoConfig_def requestedSkip_def fetch_def demoGit_def)
  note w = validateStatus_untracked_skip[OF demo_status[of "[]"] c t]
  note w' = validateStatus_untracked_skip[OF st' c' t]
  have 1: "validateStatus demoService None (demoRepo, []) = (Inr (), (demoRepo, [GitStatus]))"
    using w[of None, THEN conjunct1, rule_format, OF n, THEN conjunct1] by simp
  have 2: "validateStatus demoService ?t (demoRepo, []) = (Inr (), (demoRepo, [GitStatus]))"
    using w[of ?t, THEN conjunct1, rule_format, OF y, THEN conjunct1] by simp
  have 3: "validateStatus demoService ?f (demoRepo, []) =
      (Inl (Error (branchNotAllowedMessage ''dev'' [''main''])), (demoRepo, [GitStatus]))"
    using w[of ?f, THEN conjunct2, THEN conjunct1, rule_format, OF f, THEN conjunct1]
    by (simp add: allowedBranchesCheck_def demoService_def demoConfig_def demoRepo_def optFlag_def)
  have 4: "validateStatus ?svc ?g (demoRepo, []) = (Inr (), (demoRepo, [GitStatus, GitFetch ''origin'']))"
    using w'[of ?g, THEN conjunct2, THEN conjunct2, rule_format, OF g, THEN conjunct1]
    by (simp add: allowedBranchesCheck_def demoService_def demoConfig_def demoRepo_def optFlag_def)
  have 5: "current (statusNow demoRepo) = Some ''dev''"
    "allowedBranches (config demoService) = Some [''main'']"
    by (simp_all add: demoService_def demoConfig_def demoRepo_def)
  show ?thesis
    by (intro conjI 1 2 3 4 5)
qed


theorem validateStatus_explicit_false_counterexample:
  "\<not> truthy (tracking (statusNow demoRepo)) \<and>
   \<not> requireUpToDate (config demoService) \<and>
   fst (validateStatus demoService
          (Some \<lparr>skipUpstreamTracking = Some False, force = None, allowBranch = None\<rparr>)
          (demoRepo, [])) =
     Inl (Error (branchNotAllowedMessage ''dev'' [''main'']))"
  by (simp add: validateStatus_def status_def demoService_def demoGit_def demoConfig_def
      demoRepo_def skipRemoteChecks_def requestedSkip_def optFlag_def Let_def)


lemma addAnnotatedTag_trace:
  "addAnnotatedTag svc t m s = (r, s') \<Longrightarrow> snd s' = snd s @ [GitAddAnnotatedTag t m]"
  by (auto simp: addAnnotatedTag_def split: prod.splits)

lemma includes_str_self: "includes_str (a @ p @ b) p"
proof (induction a)
  case Nil
  have "prefix p (p @ b)" by simp
  then show ?case by (cases "p @ b") auto
next
  case (Cons c a)
  then show ?case by simp
qed

lemma alreadyExistsMessage_names_steps:
  "includes_str (alreadyExistsMessage t r) ''already exists'' \<and>
   includes_str (alreadyExistsMessage t r) (''git tag -d '' @ t) \<and>
   includes_str (alreadyExistsMessage t r) (''git push '' @ r @ '' :refs/tags/'' @ t)"
proof -
  have 1: "alreadyExistsMessage t r = (''Tag '' @ t @ '' '') @ ''already exists'' @
      (''. Use --force to overwrite or manually delete the tag with:'' @ [NL, NL] @
       ''  git tag -d '' @ t @ [NL] @ ''  git push '' @ r @ '' :refs/tags/'' @ t)"
    by (simp add: alreadyExistsMessage_def)
  have 2: "alreadyExistsMessage t r = (''Tag '' @ t @
      '' already exists. Use --force to overwrite or manually delete the tag with:'' @ [NL, NL] @
      ''  '') @ (''git tag -d '' @ t) @ ([NL] @ ''  git push '' @ r @ '' :refs/tags/'' @ t)"
    by (simp add: alreadyExistsMessage_def)
  have 3: "alreadyExistsMessage t r = (''Tag '' @ t @
      '' already exists. Use --force to overwrite or manually delete the tag with:'' @ [NL, NL] @
      ''  git tag -d '' @ t @ [NL] @ ''  '') @ (''git push '' @ r @ '' :refs/tags/'' @ t) @ []"
    by (simp add: alreadyExistsMessage_def)
  show ?thesis
    using includes_str_self[of "''Tag '' @ t @ '' ''" "''already exists''"]
      includes_str_self[of _ "''git tag -d '' @ t"]
      includes_str_self[of _ "''git push '' @ r @ '' :refs/tags/'' @ t" "[]"]
    by (metis 1 2 3)
qed

lemma createTag_not_forced:
  assumes "newVersion context = Some v" "v \<noteq> []"
    and "tagName = getTagName svc (name context) v"
    and "raw svc [''rev-parse'', ''refs/tags/'' @ tagName] s = (Inr out, s1)"
  shows "createTag svc context False s =
           (Inl (Error (alreadyExistsMessage tagName (remote (config svc)))), s1)"
  using assms(1,2,4) alreadyExistsMessage_names_steps[of tagName "remote (config svc)"]
  by (simp add: createTag_def checkTagExists_def Let_def assms(3)[symmetric])

lemma deleteTag_local_and_remote:
  assumes "raw svc [''rev-parse'', ''refs/tags/'' @ tagName] s1 = (Inr out2, s2)"
    and "raw svc [''tag'', ''-d'', tagName] s2 = (Inr out3, s3)"
    and "s4 = (if remote (config svc) \<noteq> []
               then snd (raw svc [''push'', remote (config svc), '':refs/tags/'' @ tagName] s3)
               else s3)"
  shows "deleteTag svc tagName True s1 = (Inr (), s4)"
  using assms by (simp add: deleteTag_def checkTagExists_def split: prod.splits)

lemma createTag_forced:
  assumes "newVersion context = Some v" "v \<noteq> []"
    and "tagName = getTagName svc (name context) v"
    and "tagMsg = (case tagMessage (config svc) of Some m \<Rightarrow> m | None \<Rightarrow> ''Release '' @ tagName)"
    and "raw svc [''rev-parse'', ''refs/tags/'' @ tagName] s = (Inr out, s1)"
    and "raw svc [''rev-parse'', ''refs/tags/'' @ tagName] s1 = (Inr out2, s2)"
    and "raw svc [''tag'', ''-d'', tagName] s2 = (Inr out3, s3)"
    and "s4 = (if remote (config svc) \<noteq> []
               then snd (raw svc [''push'', remote (config svc), '':refs/tags/'' @ tagName] s3)
               else s3)"
    and "addAnnotatedTag svc tagName tagMsg s4 = (Inr (), s5)"
  shows "createTag svc context True s = (Inr tagName, s5)"
    and "snd s5 = snd s @ [GitRaw [''rev-parse'', ''refs/tags/'' @ tagName],
                           GitRaw [''rev-parse'', ''refs/tags/'' @ tagName],
                           GitRaw [''tag'', ''-d'', tagName]] @
                  (if remote (config svc) \<noteq> []
                   then [GitRaw [''push'', remote (config svc), '':refs/tags/'' @ tagName]]
                   else []) @
                  [GitAddAnnotatedTag tagName tagMsg]"
proof -
  have d: "deleteTag svc tagName True s1 = (Inr (), s4)"
    using assms(6-8) by (rule deleteTag_local_and_remote)
  show "createTag svc context True s = (Inr tagName, s5)"
    using assms(1,2,5,9) d
    by (simp add: createTag_def checkTagExists_def Let_def assms(3)[symmetric] assms(4)[symmetric])
  have s4: "snd s4 = snd s3 @ (if remote (config svc) \<noteq> []
           then [GitRaw [''push'', remote (config svc), '':refs/tags/'' @ tagName]] else [])"
  proof (cases "remote (config svc) = []")
    case True
    with assms(8) show ?thesis by simp
  next
    case False
    obtain r s' where p: "raw svc [''push'', remote (config svc), '':refs/tags/'' @ tagName] s3 = (r, s')"
      by (cases "raw svc [''push'', remote (config svc), '':refs/tags/'' @ tagName] s3")
    from assms(8) False p have "s4 = s'" by simp
    with raw_trace[OF p] False show ?thesis by simp
  qed
  show "snd s5 = snd s @ [GitRaw [''rev-parse'', ''refs/tags/'' @ tagName],
                           GitRaw [''rev-parse'', ''refs/tags/'' @ tagName],
                           GitRaw [''tag'', ''-d'', tagName]] @
                  (if remote (config svc) \<noteq> []
                   then [GitRaw [''push'', remote (config svc), '':refs/tags/'' @ tagName]]
                   else []) @
                  [GitAddAnnotatedTag tagName tagMsg]"
    unfolding addAnnotatedTag_trace[OF assms(9)] s4 raw_trace[OF assms(7)]
      raw_trace[OF assms(6)] raw_trace[OF assms(5)]
    by (simp only: append_assoc append_Cons append_Nil)
qed

text \<open>
  Claim C5. For a context with a new version whose computed tag exists (the
  \<open>rev-parse\<close> of \<open>refs/tags/<tag>\<close> succeeds): without force, \<open>createTag\<close> throws the
  "already exists" error, whose message names \<open>git tag -d <tag>\<close> and
  \<open>git push <remote> :refs/tags/<tag>\<close>, after the one \<open>rev-parse\<close> call and nothing
  else (no tag is created); with force, when the local deletion and the tagging succeed,
  the calls are the two existence checks, \<open>tag -d\<close>, the push of the remote deletion
  (if a remote is configured, whatever its outcome) and then \<open>addAnnotatedTag\<close>, and
  the tag name is returned.
\<close>

theorem createTag_existing_tag:
  assumes "newVersion context = Some v" "v \<noteq> []"
    and "tagName = getTagName svc (name context) v"
    and "tagMsg = (case tagMessage (config svc) of Some m \<Rightarrow> m | None \<Rightarrow> ''Release '' @ tagName)"
    and "raw svc [''rev-parse'', ''refs/tags/'' @ tagName] s = (Inr out, s1)"
  shows "createTag svc context False s =
           (Inl (Error (alreadyExistsMessage tagName (remote (config svc)))), s1) \<and>
         snd s1 = snd s @ [GitRaw [''rev-parse'', ''refs/tags/'' @ tagName]] \<and>
         includes_str (alreadyExistsMessage tagName (remote (config svc))) ''already exists'' \<and>
         includes_str (alreadyExistsMessage tagName (remote (config svc))) (''git tag -d '' @ tagName) \<and>
         includes_str (alreadyExistsMessage tagName (remote (config svc)))
           (''git push '' @ remote (config svc) @ '' :refs/tags/'' @ tagName) \<and>
         (raw svc [''rev-parse'', ''refs/tags/'' @ tagName] s1 = (Inr out2, s2) \<and>
          raw svc [''tag'', ''-d'', tagName] s2 = (Inr out3, s3) \<and>
          s4 = (if remote (config svc) \<noteq> []
                then snd (raw svc [''push'', remote (config svc), '':refs/tags/'' @ tagName] s3)
                else s3) \<and>
          addAnnotatedTag svc tagName tagMsg s4 = (Inr (), s5) \<longrightarrow>
          createTag svc context True s = (Inr tagName, s5) \<and>
          snd s5 = snd s @ [GitRaw [''rev-parse'', ''refs/tags/'' @ tagName],
                            GitRaw [''rev-parse'', ''refs/tags/'' @ tagName],
                            GitRaw [''tag'', ''-d'', tagName]] @
                   (if remote (config svc) \<noteq> []
                    then [GitRaw [''push'', remote (config svc), '':refs/tags/'' @ tagName]]
                    else []) @
                   [GitAddAnnotatedTag tagName tagMsg])"
proof (intro conjI impI)
  show "createTag svc context False s =
           (Inl (Error (alreadyExistsMessage tagName (remote (config svc)))), s1)"
    by (rule createTag_not_forced[OF assms(1,2,3,5)])
  show "snd s1 = snd s @ [GitRaw [''rev-parse'', ''refs/tags/'' @ tagName]]"
    by (rule raw_trace[OF assms(5)])
  note m = alreadyExistsMessage_names_steps[of tagName "remote (config svc)"]
  show "includes_str (alreadyExistsMessage tagName (remote (config svc))) ''already exists''"
    by (rule m[THEN conjunct1])
  show "includes_str (alreadyExistsMessage tagName (remote (config svc))) (''git tag -d '' @ tagName)"
    by (rule m[THEN conjunct2, THEN conjunct1])
  show "includes_str (alreadyExistsMessage tagName (remote (config svc)))
           (''git push '' @ remote (config svc) @ '' :refs/tags/'' @ tagName)"
    by (rule m[THEN conjunct2, THEN conjunct2])
next
  assume a: "raw svc [''rev-parse'', ''refs/tags/'' @ tagName] s1 = (Inr out2, s2) \<and>
          raw svc [''tag'', ''-d'', tagName] s2 = (Inr out3, s3) \<and>
          s4 = (if remote (config svc) \<noteq> []
                then snd (raw svc [''push'', remote (config svc), '':refs/tags/'' @ tagName] s3)
                else s3) \<and>
          addAnnotatedTag svc tagName tagMsg s4 = (Inr (), s5)"
  note f = createTag_forced[OF assms(1-5) a[THEN conjunct1] a[THEN conjunct2, THEN conjunct1]
      a[THEN conjunct2, THEN conjunct2, THEN conjunct1]
      a[THEN conjunct2, THEN conjunct2, THEN conjunct2]]
  show "createTag svc context True s = (Inr tagName, s5)" by (rule f(1))
  show "snd s5 = snd s @ [GitRaw [''rev-parse'', ''refs/tags/'' @ tagName],
                            GitRaw [''rev-parse'', ''refs/tags/'' @ tagName],
                            GitRaw [''tag'', ''-d'', tagName]] @
                   (if remote (config svc) \<noteq> []
                    then [GitRaw [''push'', remote (config svc), '':refs/tags/'' @ tagName]]
                    else []) @
                   [GitAddAnnotatedTag tagName tagMsg]" by (rule f(2))
qed

text \<open>
  Claim C6. \<open>deleteTag\<close> with the remote flag: when no local tag of the name exists, no
  local deletion is attempted and the call succeeds; when the local tag exists and its
  deletion throws, the call throws \<open>Failed to delete tag <tag>: <message>\<close>; when the local
  deletion succeeds and the remote deletion throws, the call still succeeds.
\<close>

theorem deleteTag_failures:
  "(raw svc [''rev-parse'', ''refs/tags/'' @ tagName] s = (Inl e0, s1) \<longrightarrow>
      deleteTag svc tagName True s =
        (Inr (), if remote (config svc) \<noteq> []
                 then snd (raw svc [''push'', remote (config svc), '':refs/tags/'' @ tagName] s1)
                 else s1)) \<and>
   (raw svc [''rev-parse'', ''refs/tags/'' @ tagName] s = (Inr out, s1) \<and>
    raw svc [''tag'', ''-d'', tagName] s1 = (Inl e, s2) \<longrightarrow>
      deleteTag svc tagName remoteToo s =
        (Inl (Error (''Failed to delete tag '' @ tagName @ '': '' @ errorMessage e)), s2)) \<and>
   (raw svc [''rev-parse'', ''refs/tags/'' @ tagName] s = (Inr out, s1) \<and>
    raw svc [''tag'', ''-d'', tagName] s1 = (Inr out2, s2) \<and>
    raw svc [''push'', remote (config svc), '':refs/tags/'' @ tagName] s2 = (Inl e3, s3) \<and>
    remote (config svc) \<noteq> [] \<longrightarrow>
      deleteTag svc tagName True s = (Inr (), s3))"
  by (auto simp: deleteTag_def checkTagExists_def split: prod.splits)

lemma getSubstitution_literal:
  "CHR ''$'' \<notin> set rep \<Longrightarrow> getSubstitution m b a rep = rep"
  by (induction m b a rep rule: getSubstitution.induct) auto

lemma replace_literal:
  "CHR ''$'' \<notin> set rep \<Longrightarrow> replace str pat rep = replaceFirst str pat rep"
  by (simp add: replace_def replaceFirst_def getSubstitution_literal split: option.splits)

lemma find_first_skip:
  "p \<notin> set xs \<Longrightarrow>
   find_first (p # ps) (xs @ ys) =
     (case find_first (p # ps) ys of None \<Rightarrow> None | Some (b, a) \<Rightarrow> Some (xs @ b, a))"
  by (induction xs) (auto split: option.splits)

lemma generated_no_packageName:
  assumes "CHR ''$'' \<notin> set n"
  shows "replaceFirst (generatedCommitMessage n) ''${packageName}'' nm = generatedCommitMessage n"
proof -
  have "find_first ''${packageName}'' ((''chore(release): release '' @ n) @ ''@${version}'') = None"
    using assms by (subst find_first_skip) auto
  then show ?thesis by (simp add: replaceFirst_def generatedCommitMessage_def)
qed

lemma generated_version:
  assumes "CHR ''$'' \<notin> set n"
  shows "replaceFirst (generatedCommitMessage n) ''${version}'' v =
           ''chore(release): release '' @ n @ ''@'' @ v"
proof -
  have "find_first ''${version}'' ((''chore(release): release '' @ n @ ''@'') @ ''${version}'') =
          Some (''chore(release): release '' @ n @ ''@'', [])"
    using assms by (subst find_first_skip) auto
  then show ?thesis by (simp add: replaceFirst_def generatedCommitMessage_def)
qed

lemma add_trace: "add svc fs s = (r, s') \<Longrightarrow> snd s' = snd s @ [GitAdd fs]"
  by (auto simp: add_def split: prod.splits)

lemma commit_trace: "commit svc m s = (r, s') \<Longrightarrow> snd s' = snd s @ [GitCommit m]"
  by (auto simp: commit_def split: prod.splits)

text \<open>
  Claim C8, amended. For a context with a new version, the package name and the version
  free of \<open>$\<close>: \<open>commitChanges\<close> stages the package's package.json and the changelog
  file (an empty relative path is dropped) and commits with the configured template in
  which the first \<open>${packageName}\<close> is replaced by the package name and then the first
  \<open>${version}\<close> by the new version. Under the commit message that
  \<open>generateMonorepoConfig\<close> writes for a package.json named \<open>n\<close> (free of \<open>$\<close>), the
  message is \<open>chore(release): release n@<version>\<close>, with the name the configuration
  was generated for.
\<close>

theorem commitChanges_message:
  assumes "newVersion context = Some v" "v \<noteq> []"
    and "CHR ''$'' \<notin> set (name context)" "CHR ''$'' \<notin> set v"
    and "filesToAdd = filterBoolean
           [path_join svc (path_relative svc (rootDir svc) (path context)) ''package.json'',
            path_relative svc (rootDir svc) changelogPath]"
    and "msg = replaceFirst (replaceFirst (commitMessage (config svc)) ''${packageName}''
                               (name context)) ''${version}'' v"
    and "add svc filesToAdd s = (Inr (), s1)"
    and "commit svc msg s1 = (Inr (), s2)"
  shows "commitChanges svc context changelogPath s = (Inr (), s2) \<and>
         snd s2 = snd s @ [GitAdd filesToAdd, GitCommit msg] \<and>
         (\<forall>n. commitMessage (config svc) = generatedCommitMessage n \<and> CHR ''$'' \<notin> set n \<longrightarrow>
              msg = ''chore(release): release '' @ n @ ''@'' @ v)"
proof (intro conjI allI impI)
  have m: "replace (replace (commitMessage (config svc)) ''${packageName}'' (name context))
             ''${version}'' v = msg"
    using assms(3,4,6) by (simp add: replace_literal)
  show "commitChanges svc context changelogPath s = (Inr (), s2)"
    using assms(1,2,7,8) m
    by (simp add: commitChanges_def Let_def assms(5)[symmetric])
  show "snd s2 = snd s @ [GitAdd filesToAdd, GitCommit msg]"
    using add_trace[OF assms(7)] commit_trace[OF assms(8)] by simp
next
  fix n assume "commitMessage (config svc) = generatedCommitMessage n \<and> CHR ''$'' \<notin> set n"
  then show "msg = ''chore(release): release '' @ n @ ''@'' @ v"
    using assms(6) by (simp add: generated_no_packageName generated_version)
qed

lemma demo_raw:
  "raw demoService args (r, tr) = (fst (demoRaw args r), (snd (demoRaw args r), tr @ [GitRaw args]))"
  by (simp add: raw_def demoService_def demoGit_def split: prod.splits)

lemma demo_config: "config demoService = demoConfig" "git demoService = demoGit"
  by (simp_all add: demoService_def)

theorem createTag_existing_tag_witness:
  "createTag demoService demoContext False (demoRepo, []) =
     (Inl (Error (alreadyExistsMessage ''a@1.0.1'' ''origin'')),
      (demoRepo, [GitRaw [''rev-parse'', ''refs/tags/a@1.0.1'']])) \<and>
   createTag demoService demoContext True (demoRepo, []) =
     (Inr ''a@1.0.1'',
      (demoRepo, [GitRaw [''rev-parse'', ''refs/tags/a@1.0.1''],
                  GitRaw [''rev-parse'', ''refs/tags/a@1.0.1''],
                  GitRaw [''tag'', ''-d'', ''a@1.0.1''],
                  GitRaw [''push'', ''origin'', '':refs/tags/a@1.0.1''],
                  GitAddAnnotatedTag ''a@1.0.1'' ''Release a@1.0.1'']))"
proof -
  let ?rev = "[''rev-parse'', ''refs/tags/'' @ ''a@1.0.1'']"
  let ?e1 = "[GitRaw ?rev]"
  let ?e2 = "[GitRaw ?rev, GitRaw ?rev]"
  let ?e3 = "[GitRaw ?rev, GitRaw ?rev, GitRaw [''tag'', ''-d'', ''a@1.0.1'']]"
  let ?e4 = "?e3 @ [GitRaw [''push'', ''origin'', '':refs/tags/'' @ ''a@1.0.1'']]"
  let ?r' = "demoRepo\<lparr>localTags := [''a@1.0.0'']\<rparr>"
  have v: "newVersion demoContext = Some ''1.0.1''" "''1.0.1'' \<noteq> []"
    by (simp_all add: demoContext_def)
  have t: "''a@1.0.1'' = getTagName demoService (name demoContext) ''1.0.1''"
    by (simp add: getTagName_def demoService_def demoConfig_def demoContext_def)
  have m: "''Release a@1.0.1'' =
      (case tagMessage (config demoService) of Some m \<Rightarrow> m | None \<Rightarrow> ''Release '' @ ''a@1.0.1'')"
    by (simp add: demoService_def demoConfig_def)
  have r1: "raw demoService ?rev (demoRepo, []) = (Inr ''refs/tags/a@1.0.1'', (demoRepo, ?e1))"
    by (simp add: demo_raw demoRaw_def demoRepo_def)
  have r2: "raw demoService ?rev (demoRepo, ?e1) = (Inr ''refs/tags/a@1.0.1'', (demoRepo, ?e2))"
    by (simp add: demo_raw demoRaw_def demoRepo_def)
  have r3: "raw demoService [''tag'', ''-d'', ''a@1.0.1''] (demoRepo, ?e2) = (Inr ''Deleted tag'', (?r', ?e3))"
    by (simp add: demo_raw demoRaw_def demoRepo_def)
  have r4: "(?r', ?e4) = (if remote (config demoService) \<noteq> []
        then snd (raw demoService [''push'', remote (config demoService), '':refs/tags/'' @ ''a@1.0.1''] (?r', ?e3))
        else (?r', ?e3))"
    by (simp add: demo_raw demoRaw_def demoRepo_def demo_config demoConfig_def)
  have r5: "addAnnotatedTag demoService ''a@1.0.1'' ''Release a@1.0.1'' (?r', ?e4) =
      (Inr (), (demoRepo, ?e4 @ [GitAddAnnotatedTag ''a@1.0.1'' ''Release a@1.0.1'']))"
    by (simp add: addAnnotatedTag_def demo_config demoGit_def demoRepo_def)
  note w = createTag_existing_tag[OF v t m r1]
  have f: "createTag demoService demoContext True (demoRepo, []) =
      (Inr ''a@1.0.1'', (demoRepo, ?e4 @ [GitAddAnnotatedTag ''a@1.0.1'' ''Release a@1.0.1'']))"
    using w[THEN conjunct2, THEN conjunct2, THEN conjunct2, THEN conjunct2, THEN conjunct2,
        rule_format, THEN conjunct1, OF conjI[OF r2 conjI[OF r3 conjI[OF r4 r5]]]] .
  show ?thesis
    using w[THEN conjunct1] f by (simp add: demo_config demoConfig_def)
qed

theorem deleteTag_failures_witness:
  "deleteTag demoService ''zz'' True (demoRepo, []) =
     (Inr (), (demoRepo, [GitRaw [''rev-parse'', ''refs/tags/zz''],
                          GitRaw [''push'', ''origin'', '':refs/tags/zz'']])) \<and>
   deleteTag demoService ''a@1.0.1'' True (demoRepo\<lparr>deleteFails := True\<rparr>, []) =
     (Inl (Error ''Failed to delete tag a@1.0.1: cannot delete''),
      (demoRepo\<lparr>deleteFails := True\<rparr>,
       [GitRaw [''rev-parse'', ''refs/tags/a@1.0.1''], GitRaw [''tag'', ''-d'', ''a@1.0.1'']])) \<and>
   deleteTag demoService ''a@1.0.1'' True (demoRepo\<lparr>pushFails := True\<rparr>, []) =
     (Inr (), (demoRepo\<lparr>pushFails := True, localTags := [''a@1.0.0'']\<rparr>,
       [GitRaw [''rev-parse'', ''refs/tags/a@1.0.1''], GitRaw [''tag'', ''-d'', ''a@1.0.1''],
        GitRaw [''push'', ''origin'', '':refs/tags/a@1.0.1'']]))"
proof -
  let ?rev = "[''rev-parse'', ''refs/tags/'' @ ''a@1.0.1'']"
  let ?del = "[''tag'', ''-d'', ''a@1.0.1'']"
  let ?push = "[''push'', remote (config demoService), '':refs/tags/'' @ ''a@1.0.1'']"
  let ?d = "demoRepo\<lparr>deleteFails := True\<rparr>"
  let ?p = "demoRepo\<lparr>pushFails := True\<rparr>"
  have a1: "raw demoService [''rev-parse'', ''refs/tags/'' @ ''zz''] (demoRepo, []) =
      (Inl (Error ''fatal: unknown revision''), (demoRepo, [GitRaw [''rev-parse'', ''refs/tags/zz'']]))"
    by (simp add: demo_raw demoRaw_def demoRepo_def)
  have b1: "raw demoService ?rev (?d, []) = (Inr ''refs/tags/a@1.0.1'', (?d, [GitRaw ?rev]))"
    by (simp add: demo_raw demoRaw_def demoRepo_def)
  have b2: "raw demoService ?del (?d, [GitRaw ?rev]) = (Inl (Error ''cannot delete''), (?d, [GitRaw ?rev, GitRaw ?del]))"
    by (simp add: demo_raw demoRaw_def demoRepo_def)
  have c1: "raw demoService ?rev (?p, []) = (Inr ''refs/tags/a@1.0.1'', (?p, [GitRaw ?rev]))"
    by (simp add: demo_raw demoRaw_def demoRepo_def)
  have c2: "raw demoService ?del (?p, [GitRaw ?rev]) =
      (Inr ''Deleted tag'', (?p\<lparr>localTags := [''a@1.0.0'']\<rparr>, [GitRaw ?rev, GitRaw ?del]))"
    by (simp add: demo_raw demoRaw_def demoRepo_def)
  have c3: "raw demoService ?push (?p\<lparr>localTags := [''a@1.0.0'']\<rparr>, [GitRaw ?rev, GitRaw ?del]) =
      (Inl (Error ''remote rejected''), (?p\<lparr>localTags := [''a@1.0.0'']\<rparr>, [GitRaw ?rev, GitRaw ?del, GitRaw ?push]))"
    by (simp add: demo_raw demoRaw_def demoRepo_def demo_config demoConfig_def)
  have rem: "remote (config demoService) \<noteq> []"
    by (simp add: demo_config demoConfig_def)
  note w1 = deleteTag_failures[where svc=demoService and tagName="''zz''" and s="(demoRepo, [])", THEN conjunct1, rule_format, OF a1]
  note w2 = deleteTag_failures[where svc=demoService and tagName="''a@1.0.1''" and s="(?d, [])"
      and remoteToo=True, THEN conjunct2, THEN conjunct1, rule_format, OF conjI[OF b1 b2]]
  note w3 = deleteTag_failures[where svc=demoService and tagName="''a@1.0.1''" and s="(?p, [])", THEN conjunct2, THEN conjunct2,
      rule_format, OF conjI[OF c1 conjI[OF c2 conjI[OF c3 rem]]]]
  show ?thesis
    using w1 w2 w3
    by (simp add: demo_raw demoRaw_def demoRepo_def demo_config demoConfig_def)
qed

theorem commitChanges_message_witness:
  "commitChanges demoService demoContext ''/r/packages/a/CHANGELOG.md'' (demoRepo, []) =
     (Inr (), (demoRepo, [GitAdd [''packages/a/package.json'', ''packages/a/CHANGELOG.md''],
                          GitCommit ''chore(release): release a@1.0.1'']))"
proof -
  let ?files = "[''packages/a/package.json'', ''packages/a/CHANGELOG.md'']"
  let ?msg = "''chore(release): release a@1.0.1''"
  have v: "newVersion demoContext = Some ''1.0.1''" "''1.0.1'' \<noteq> []"
    "CHR ''$'' \<notin> set (name demoContext)" "CHR ''$'' \<notin> set ''1.0.1''"
    by (simp_all add: demoContext_def)
  have f: "?files = filterBoolean
           [path_join demoService (path_relative demoService (rootDir demoService) (path demoContext)) ''package.json'',
            path_relative demoService (rootDir demoService) ''/r/packages/a/CHANGELOG.md'']"
    by (simp add: demoService_def demoContext_def filterBoolean_def)
  have m: "?msg = replaceFirst (replaceFirst (commitMessage (config demoService)) ''${packageName}''
                               (name demoContext)) ''${version}'' ''1.0.1''"
    by (simp add: demoService_def demoConfig_def demoContext_def replaceFirst_def)
  have a: "add demoService ?files (demoRepo, []) = (Inr (), (demoRepo, [GitAdd ?files]))"
    by (simp add: add_def demoService_def demoGit_def)
  have c: "commit demoService ?msg (demoRepo, [GitAdd ?files]) =
      (Inr (), (demoRepo, [GitAdd ?files, GitCommit ?msg]))"
    by (simp add: commit_def demoService_def demoGit_def)
  show ?thesis
    using commitChanges_message[OF v f m a c, THEN conjunct1] .
qed

theorem commitChanges_message_counterexample:
  "snd (snd (commitChanges (demoService\<lparr>config := demoConfig\<lparr>commitMessage := ''${version} and ${version}''\<rparr>\<rparr>)
        demoContext ''/r/packages/a/CHANGELOG.md'' (demoRepo, []))) =
     [GitAdd [''packages/a/package.json'', ''packages/a/CHANGELOG.md''],
      GitCommit ''1.0.1 and ${version}''] \<and>
   snd (snd (commitChanges (demoService\<lparr>config := demoConfig\<lparr>commitMessage := generatedCommitMessage ''root''\<rparr>\<rparr>)
        demoContext ''/r/packages/a/CHANGELOG.md'' (demoRepo, []))) =
     [GitAdd [''packages/a/package.json'', ''packages/a/CHANGELOG.md''],
      GitCommit ''chore(release): release root@1.0.1'']"
  by (simp add: commitChanges_def add_def commit_def demoService_def demoGit_def demoConfig_def
      demoContext_def filterBoolean_def replace_def generatedCommitMessage_def Let_def)

section \<open>Properties of the version comparison\<close>


lemma digitValue_nonneg: "isDigit c \<Longrightarrow> 0 \<le> digitValue c"
  by (auto simp: isDigit_def digitValue_def)

lemma toDouble_exact: "n < 2 ^ 53 \<Longrightarrow> toDouble n = Num n"
  by (simp add: toDouble_def)

lemma roundInt_exact: "\<bar>d\<bar> < 2 ^ 53 \<Longrightarrow> roundInt d = Num d"
  by (auto simp: roundInt_def toDouble_exact)

lemma Number_safe:
  "seg \<noteq> [] \<Longrightarrow> list_all isDigit seg \<Longrightarrow> decimalValue seg < 2 ^ 53 \<Longrightarrow>
   Number seg = Num (decimalValue seg)"
  by (simp add: Number_def toDouble_exact)

lemma foldl_digits_nonneg:
  "list_all isDigit s \<Longrightarrow> 0 \<le> acc \<Longrightarrow> 0 \<le> foldl (\<lambda>acc c. 10 * acc + digitValue c) acc s"
proof (induction s arbitrary: acc)
  case Nil
  then show ?case by simp
next
  case (Cons c s)
  from Cons.prems have "0 \<le> 10 * acc + digitValue c"
    using digitValue_nonneg[of c] by simp
  with Cons show ?case by simp
qed

lemma decimalValue_nonneg: "list_all isDigit s \<Longrightarrow> 0 \<le> decimalValue s"
  by (simp add: decimalValue_def foldl_digits_nonneg)

lemma safeVersion_parts:
  assumes "safeVersion v"
  shows "map Number (split ''.'' v) = map Num (segments v)" and "inRange (segments v)"
proof -
  have a: "\<And>seg. seg \<in> set (split ''.'' v) \<Longrightarrow>
      seg \<noteq> [] \<and> list_all isDigit seg \<and> decimalValue seg < 2 ^ 53"
    using assms by (simp add: safeVersion_def list_all_iff)
  show "map Number (split ''.'' v) = map Num (segments v)"
    unfolding segments_def map_map by (rule map_cong[OF refl]) (auto dest!: a simp: Number_safe)
  show "inRange (segments v)"
    using a by (auto simp: inRange_def segments_def decimalValue_nonneg)
qed

lemma orZero_nth: "orZero (nth_opt (map Num xs) i) = Num (at0 xs i)"
  by (simp add: nth_opt_def at0_def)

lemma componentwise_drop:
  assumes "i < max (length as) (length bs)"
  shows "componentwise (drop i as) (drop i bs) =
           (if at0 as i < at0 bs i then - 1 else if at0 bs i < at0 as i then 1
            else componentwise (drop (Suc i) as) (drop (Suc i) bs))"
proof (cases "i < length as"; cases "i < length bs")
  assume a: "i < length as" and b: "i < length bs"
  show ?thesis
    by (simp add: Cons_nth_drop_Suc[OF a, symmetric] Cons_nth_drop_Suc[OF b, symmetric] at0_def a b)
next
  assume a: "i < length as" and b: "\<not> i < length bs"
  show ?thesis
    using b by (simp add: Cons_nth_drop_Suc[OF a, symmetric] at0_def a)
next
  assume a: "\<not> i < length as" and b: "i < length bs"
  show ?thesis
    using a by (simp add: Cons_nth_drop_Suc[OF b, symmetric] at0_def b)
next
  assume "\<not> i < length as" "\<not> i < length bs"
  with assms have False by arith
  then show ?thesis ..
qed

lemma at0_range: "inRange xs \<Longrightarrow> 0 \<le> at0 xs i \<and> at0 xs i < 2 ^ 53"
  by (auto simp: inRange_def at0_def)

lemma compareLoop_exact:
  assumes "inRange as" "inRange bs"
  shows "\<exists>d. compareLoop (map Num as) (map Num bs) i = Num d \<and>
             sgn d = componentwise (drop i as) (drop i bs)"
proof (induction "max (length as) (length bs) - i" arbitrary: i)
  case 0
  then have l: "length as \<le> i" "length bs \<le> i"
    by arith+
  then have n: "\<not> i < max (length (map Num as)) (length (map Num bs))"
    by simp
  have "compareLoop (map Num as) (map Num bs) i = Num 0"
    by (subst compareLoop.simps) (simp only: n if_False)
  then show ?case
    using l by simp
next
  case (Suc n)
  then have lt: "i < max (length as) (length bs)" by arith
  have ra: "0 \<le> at0 as i \<and> at0 as i < 2 ^ 53" and rb: "0 \<le> at0 bs i \<and> at0 bs i < 2 ^ 53"
    using assms at0_range by blast+
  then have d: "\<bar>at0 as i - at0 bs i\<bar> < 2 ^ 53" by linarith
  show ?case
  proof (cases "at0 as i = at0 bs i")
    case True
    from Suc(2) have "n = max (length as) (length bs) - (i + 1)" by arith
    from Suc(1)[OF this] obtain d where
      "compareLoop (map Num as) (map Num bs) (i + 1) = Num d"
      "sgn d = componentwise (drop (i + 1) as) (drop (i + 1) bs)" by blast
    then show ?thesis
      using lt True
      by (subst compareLoop.simps) (simp add: orZero_nth strictNe_def componentwise_drop[OF lt])
  next
    case False
    have "compareLoop (map Num as) (map Num bs) i = Num (at0 as i - at0 bs i)"
      using lt False
      by (subst compareLoop.simps) (simp add: orZero_nth strictNe_def roundInt_exact[OF d])
    moreover have "sgn (at0 as i - at0 bs i) = componentwise (drop i as) (drop i bs)"
      using False by (simp add: componentwise_drop[OF lt] sgn_if)
    ultimately show ?thesis by blast
  qed
qed

lemma compareVersions_safe:
  assumes "safeVersion a" "safeVersion b"
  shows "\<exists>d. compareVersions a b = Num d \<and> sgn d = componentwise (segments a) (segments b)"
  using compareLoop_exact[OF safeVersion_parts(2)[OF assms(1)] safeVersion_parts(2)[OF assms(2)], of 0]
  by (simp add: compareVersions_def safeVersion_parts(1)[OF assms(1)] safeVersion_parts(1)[OF assms(2)])

lemma componentwise_refl: "componentwise a a = 0"
  by (induction a) auto

lemma componentwise_flip: "componentwise b a = - componentwise a b"
  by (induction a b rule: componentwise.induct) auto

lemma componentwise_trans:
  "componentwise a b \<le> 0 \<Longrightarrow> componentwise b c \<le> 0 \<Longrightarrow> componentwise a c \<le> 0"
proof (induction "length a + length b + length c" arbitrary: a b c rule: less_induct)
  case less
  show ?case
  proof (cases a; cases b; cases c)
    fix x as y bs z cs
    assume "a = x # as" "b = y # bs" "c = z # cs"
    with less.prems less.hyps[of as bs cs] show ?thesis
      by (auto split: if_splits)
  next
    fix y bs z cs
    assume "a = []" "b = y # bs" "c = z # cs"
    with less.prems less.hyps[of "[]" bs cs] show ?thesis
      by (auto split: if_splits)
  next
    fix x as z cs
    assume "a = x # as" "b = []" "c = z # cs"
    with less.prems less.hyps[of as "[]" cs] show ?thesis
      by (auto split: if_splits)
  next
    fix x as y bs
    assume "a = x # as" "b = y # bs" "c = []"
    with less.prems less.hyps[of as bs "[]"] show ?thesis
      by (auto split: if_splits)
  next
    fix x as
    assume "a = x # as" "b = []" "c = []"
    with less.prems show ?thesis by simp
  next
    fix y bs
    assume "a = []" "b = y # bs" "c = []"
    with less.prems less.hyps[of "[]" bs "[]"] show ?thesis
      by (auto split: if_splits)
  next
    fix z cs
    assume "a = []" "b = []" "c = z # cs"
    with less.prems show ?thesis by simp
  next
    assume "a = []" "b = []" "c = []"
    then show ?thesis by simp
  qed
qed


lemma positive_compareVersions:
  assumes "safeVersion a" "safeVersion b"
  shows "positive (compareVersions a b) = (0 < componentwise (segments a) (segments b))"
proof -
  from compareVersions_safe[OF assms] obtain d where
    d: "compareVersions a b = Num d" "sgn d = componentwise (segments a) (segments b)" by blast
  have "positive (compareVersions a b) = (0 < d)"
    unfolding d(1) by simp
  also have "\<dots> = (0 < sgn d)"
    by simp
  finally show ?thesis
    unfolding d(2) .
qed

lemma sortBy_Cons: "sortBy cmp (x # xs) = insertBy cmp x (sortBy cmp xs)"
  by (simp add: sortBy_def)

lemma set_insertBy: "set (insertBy cmp x ys) = insert x (set ys)"
  by (induction ys) auto

lemma set_sortBy: "set (sortBy cmp xs) = set xs"
  by (induction xs) (simp_all add: sortBy_Cons set_insertBy, simp add: sortBy_def)

lemma hd_insertBy:
  "hd (insertBy cmp x ys) = (if ys \<noteq> [] \<and> positive (cmp x (hd ys)) then hd ys else x)"
  by (cases ys) auto

lemma hd_sortBy_maximal:
  assumes "\<forall>t \<in> set ts. safeVersion (versionOf t)" and "ts \<noteq> []"
  shows "hd (sortBy (\<lambda>a b. compareVersions (versionOf b) (versionOf a)) ts) \<in> set ts \<and>
         (\<forall>u \<in> set ts.
            componentwise (segments (versionOf u))
              (segments (versionOf (hd (sortBy (\<lambda>a b. compareVersions (versionOf b) (versionOf a)) ts))))
              \<le> 0)"
  using assms
proof (induction ts)
  case Nil
  then show ?case by simp
next
  case (Cons x ts)
  let ?cmp = "\<lambda>a b. compareVersions (versionOf b) (versionOf a)"
  let ?V = "\<lambda>t. segments (versionOf t)"
  show ?case
  proof (cases "ts = []")
    case True
    then show ?thesis by (simp add: sortBy_def componentwise_refl)
  next
    case False
    let ?h = "hd (sortBy ?cmp ts)"
    from Cons False have ih: "?h \<in> set ts" "\<forall>u \<in> set ts. componentwise (?V u) (?V ?h) \<le> 0"
      by simp_all
    have ne: "sortBy ?cmp ts \<noteq> []"
      using False set_sortBy[of ?cmp ts] by (metis set_empty)
    have sx: "safeVersion (versionOf x)" and sh: "safeVersion (versionOf ?h)"
      using Cons.prems(1) ih(1) by simp_all
    have pos: "positive (?cmp x ?h) = (0 < componentwise (?V ?h) (?V x))"
      by (rule positive_compareVersions[OF sh sx])
    show ?thesis
    proof (cases "0 < componentwise (?V ?h) (?V x)")
      case True
      then have hd: "hd (sortBy ?cmp (x # ts)) = ?h"
        using ne pos by (simp add: sortBy_Cons hd_insertBy)
      have "componentwise (?V x) (?V ?h) \<le> 0"
        using True componentwise_flip[of "?V ?h" "?V x"] by simp
      with ih show ?thesis unfolding hd by simp
    next
      case F: False
      then have hd: "hd (sortBy ?cmp (x # ts)) = x"
        using ne pos by (simp add: sortBy_Cons hd_insertBy)
      have hx: "componentwise (?V ?h) (?V x) \<le> 0" using F by simp
      have "\<forall>u \<in> set ts. componentwise (?V u) (?V x) \<le> 0"
        using ih(2) hx componentwise_trans by blast
      then show ?thesis unfolding hd by (simp add: componentwise_refl)
    qed
  qed
qed

lemma tags_trace: "tags svc s = (r, s') \<Longrightarrow> snd s' = snd s @ [GitTags]"
  by (auto simp: tags_def split: prod.splits)

text \<open>
  Claim C4, amended. For version strings made of dot-separated numeric segments, each
  below \<open>2^53\<close>, \<open>compareVersions\<close> returns a number whose sign is the exact
  component-wise integer comparison of the segments, a missing segment counting as 0.
  Hence, when the tags call succeeds and every tag that starts with \<open><packageName>@\<close>
  carries such a version after its last \<open>@\<close>, \<open>getLastTag\<close> returns one of these tags
  whose version is maximal, or the empty string when there is none. (Segments from
  \<open>2^53\<close> on are rounded to doubles and may compare equal when they differ.)
\<close>

theorem compareVersions_exact:
  "(safeVersion a \<and> safeVersion b \<longrightarrow>
      (\<exists>d. compareVersions a b = Num d \<and> sgn d = componentwise (segments a) (segments b))) \<and>
   (tags svc s = (Inr all, s1) \<and>
    (\<forall>t \<in> set (filter (prefix (pkgName @ ''@'')) all). safeVersion (versionOf t)) \<longrightarrow>
      (filter (prefix (pkgName @ ''@'')) all = [] \<longrightarrow> getLastTag svc pkgName s = (Inr [], s1)) \<and>
      (filter (prefix (pkgName @ ''@'')) all \<noteq> [] \<longrightarrow>
         (\<exists>t \<in> set (filter (prefix (pkgName @ ''@'')) all).
            getLastTag svc pkgName s = (Inr t, s1) \<and>
            (\<forall>u \<in> set (filter (prefix (pkgName @ ''@'')) all).
               componentwise (segments (versionOf u)) (segments (versionOf t)) \<le> 0))))"
proof (intro conjI impI)
  assume "safeVersion a \<and> safeVersion b"
  then show "\<exists>d. compareVersions a b = Num d \<and> sgn d = componentwise (segments a) (segments b)"
    using compareVersions_safe by blast
next
  assume a: "tags svc s = (Inr all, s1) \<and>
    (\<forall>t \<in> set (filter (prefix (pkgName @ ''@'')) all). safeVersion (versionOf t))"
    and e: "filter (prefix (pkgName @ ''@'')) all = []"
  show "getLastTag svc pkgName s = (Inr [], s1)"
    using a e by (simp add: getLastTag_def packageTags_def sortBy_def)
next
  let ?c = "filter (prefix (pkgName @ ''@'')) all"
  let ?cmp = "\<lambda>a b. compareVersions (versionOf b) (versionOf a)"
  assume a: "tags svc s = (Inr all, s1) \<and> (\<forall>t \<in> set ?c. safeVersion (versionOf t))"
    and ne: "?c \<noteq> []"
  note hm = hd_sortBy_maximal[OF a[THEN conjunct2] ne]
  have m: "hd (sortBy ?cmp ?c) \<in> set ?c"
    "\<forall>u \<in> set ?c. componentwise (segments (versionOf u)) (segments (versionOf (hd (sortBy ?cmp ?c)))) \<le> 0"
    by (rule hm[THEN conjunct1], rule hm[THEN conjunct2])
  have "sortBy ?cmp ?c \<noteq> []"
    using ne set_sortBy[of ?cmp ?c] by (metis set_empty)
  then obtain t rest where tr: "sortBy ?cmp ?c = t # rest" by (cases "sortBy ?cmp ?c") auto
  then have g: "getLastTag svc pkgName s = (Inr t, s1)"
    using a by (simp add: getLastTag_def packageTags_def)
  from tr have h: "hd (sortBy ?cmp ?c) = t" by simp
  have tin: "t \<in> set ?c"
    using m(1) unfolding h .
  have mx: "\<forall>u \<in> set ?c. componentwise (segments (versionOf u)) (segments (versionOf t)) \<le> 0"
    using m(2) unfolding h .
  show "\<exists>t \<in> set ?c. getLastTag svc pkgName s = (Inr t, s1) \<and>
      (\<forall>u \<in> set ?c. componentwise (segments (versionOf u)) (segments (versionOf t)) \<le> 0)"
  proof (rule bexI[where x = t])
    show "getLastTag svc pkgName s = (Inr t, s1) \<and>
      (\<forall>u \<in> set ?c. componentwise (segments (versionOf u)) (segments (versionOf t)) \<le> 0)"
      by (rule conjI[OF g mx])
    show "t \<in> set ?c" by (rule tin)
  qed
qed


theorem compareVersions_exact_counterexample:
  "compareVersions ''1.9007199254740993'' ''1.9007199254740992'' = Num 0 \<and>
   componentwise (segments ''1.9007199254740993'') (segments ''1.9007199254740992'') = 1 \<and>
   numericVersion ''1.9007199254740993'' \<and> numericVersion ''1.9007199254740992'' \<and>
   packageTags ''a'' [''a@1.9007199254740992'', ''a@1.9007199254740993''] =
     [''a@1.9007199254740992'', ''a@1.9007199254740993'']"
  by code_simp


theorem compareVersions_exact_witness:
  "(\<exists>d. compareVersions ''1.2.3'' ''1.10'' = Num d \<and>
        sgn d = componentwise (segments ''1.2.3'') (segments ''1.10'')) \<and>
   componentwise (segments ''1.2.3'') (segments ''1.10'') = - 1 \<and>
   (\<exists>t \<in> set (filter (prefix (''a'' @ ''@'')) (localTags demoRepo)).
      getLastTag demoService ''a'' (demoRepo, []) = (Inr t, (demoRepo, [GitTags])) \<and>
      (\<forall>u \<in> set (filter (prefix (''a'' @ ''@'')) (localTags demoRepo)).
         componentwise (segments (versionOf u)) (segments (versionOf t)) \<le> 0)) \<and>
   getLastTag demoService ''a'' (demoRepo, []) = (Inr ''a@1.0.1'', (demoRepo, [GitTags])) \<and>
   getLastTag demoService ''zz'' (demoRepo, []) = (Inr [], (demoRepo, [GitTags]))"
proof -
  have sa: "safeVersion ''1.2.3''" and sb: "safeVersion ''1.10''"
    by (simp_all add: safeVersion_def decimalValue_def digitValue_def isDigit_def)
  have tg: "tags demoService (demoRepo, []) = (Inr (localTags demoRepo), (demoRepo, [GitTags]))"
    by (simp add: tags_def demoService_def demoGit_def)
  have sv: "\<forall>t \<in> set (filter (prefix (''a'' @ ''@'')) (localTags demoRepo)). safeVersion (versionOf t)"
    by (simp add: demoRepo_def safeVersion_def versionOf_def decimalValue_def digitValue_def isDigit_def)
  have sz: "\<forall>t \<in> set (filter (prefix (''zz'' @ ''@'')) (localTags demoRepo)). safeVersion (versionOf t)"
    by (simp add: demoRepo_def)
  have ne: "filter (prefix (''a'' @ ''@'')) (localTags demoRepo) \<noteq> []"
    and em: "filter (prefix (''zz'' @ ''@'')) (localTags demoRepo) = []"
    by (simp_all add: demoRepo_def)
  note w = compareVersions_exact[of "''1.2.3''" "''1.10''" demoService "(demoRepo, [])"
      "localTags demoRepo" "(demoRepo, [GitTags])" "''a''"]
  note z = compareVersions_exact[of "''1.2.3''" "''1.10''" demoService "(demoRepo, [])"
      "localTags demoRepo" "(demoRepo, [GitTags])" "''zz''"]
  note c1 = mp[OF w[THEN conjunct1] conjI[OF sa sb]]
  note c2 = mp[OF mp[OF w[THEN conjunct2] conjI[OF tg sv], THEN conjunct2] ne]
  note c3 = mp[OF mp[OF z[THEN conjunct2] conjI[OF tg sz], THEN conjunct1] em]
  have v: "componentwise (segments ''1.2.3'') (segments ''1.10'') = - 1"
    by code_simp
  have g: "getLastTag demoService ''a'' (demoRepo, []) = (Inr ''a@1.0.1'', (demoRepo, [GitTags]))"
    using tg by (simp add: getLastTag_def) code_simp
  show ?thesis
    by (intro conjI c1 c2 c3 v g)
qed

section \<open>Properties of the validate command\<close>

lemma flag_nullish: "x \<noteq> Some False \<Longrightarrow> flag (nullish x y) = (flag x \<or> flag y)"
  by (cases x) auto

lemma onlyMode_commandLine:
  assumes "commandLineFlags options"
  shows "onlyMode options = list_ex (onlyFlag options) registry"
proof -
  from assms have f: "vc_authOnly options \<noteq> Some False" "vc_gitOnly options \<noteq> Some False"
    "vc_depsOnly options \<noteq> Some False" "vc_versionOnly options \<noteq> Some False"
    "vc_changelogOnly options \<noteq> Some False"
    by (simp_all add: commandLineFlags_def)
  show ?thesis
    unfolding onlyMode_def
    by (simp only: flag_nullish[OF f(1)] flag_nullish[OF f(2)] flag_nullish[OF f(3)]
        flag_nullish[OF f(4)] flag_nullish[OF f(5)])
      (auto simp: registry_def)
qed

lemma shouldValidate_selected:
  assumes "commandLineFlags options"
  shows "shouldValidate options (checkName c) = selected options c"
  by (cases c) (simp_all add: shouldValidate_def selected_def onlyMode_commandLine[OF assms])

lemma pushIf_names:
  "map vr_name (fst (pushIf cond nm f acc)) = map vr_name (fst acc) @ (if cond then [nm] else [])"
  by (auto simp: pushIf_def runValidation_def split: prod.splits sum.splits)

text \<open>
  With the flags as the command line gives them (an \<open>only\<close> flag is absent or \<open>true\<close>),
  \<open>shouldValidate\<close> is the selection over the registry, and once the package configuration
  is read the validations reported are, in this order, Git Status when \<open>git\<close> is
  selected, Package Manager when \<open>auth\<close> or \<open>publish\<close> is selected, Dependencies, Version
  Format and Changelog when their check is selected.
\<close>

lemma validatePackage_names:
  assumes "commandLineFlags options"
    and "call (GetPackageConfig (name pkg)) (getPackageConfig cmd (name pkg)) s = (Inr cfg, s0)"
  shows "(\<forall>c. shouldValidate options (checkName c) = selected options c) \<and>
         (\<exists>report s'. validatePackage cmd pkg options s = (Inr report, s') \<and>
            map vr_name (pr_validations report) =
              (if selected options Git then [''Git Status''] else []) @
              (if selected options Auth \<or> selected options Publish then [''Package Manager''] else []) @
              (if selected options Deps then [''Dependencies''] else []) @
              (if selected options Version then [''Version Format''] else []) @
              (if selected options Changelog then [''Changelog''] else []))"
proof (intro conjI allI)
  fix c show "shouldValidate options (checkName c) = selected options c"
    by (rule shouldValidate_selected[OF assms(1)])
next
  note sel = shouldValidate_selected[OF assms(1), of Git, simplified]
    shouldValidate_selected[OF assms(1), of Auth, simplified]
    shouldValidate_selected[OF assms(1), of Publish, simplified]
    shouldValidate_selected[OF assms(1), of Deps, simplified]
    shouldValidate_selected[OF assms(1), of Version, simplified]
    shouldValidate_selected[OF assms(1), of Changelog, simplified]
  define a5 where "a5 =
      pushIf (shouldValidate options ''changelog'') ''Changelog'' (validateChangelog cmd pkg)
        (pushIf (shouldValidate options ''version'') ''Version Format'' (validateVersioning cmd pkg)
          (pushIf (shouldValidate options ''deps'') ''Dependencies'' (validateDependencies cmd options)
            (pushIf (shouldValidate options ''auth'' \<or> shouldValidate options ''publish'')
               ''Package Manager'' (validatePackageManager cmd cfg pkg options)
              (pushIf (shouldValidate options ''git'') ''Git Status''
                 (validateGitStatus cmd options) ([], s0)))))"
  have names: "map vr_name (fst a5) =
      (if selected options Git then [''Git Status''] else []) @
      (if selected options Auth \<or> selected options Publish then [''Package Manager''] else []) @
      (if selected options Deps then [''Dependencies''] else []) @
      (if selected options Version then [''Version Format''] else []) @
      (if selected options Changelog then [''Changelog''] else [])"
    unfolding a5_def pushIf_names sel by simp
  have vp: "validatePackage cmd pkg options s =
      (Inr \<lparr> pr_packageName = name pkg, pr_validations = fst a5,
              pr_hasErrors = list_ex (\<lambda>v. \<not> vr_success v) (fst a5) \<rparr>, snd a5)"
    unfolding validatePackage_def assms(2) Let_def a5_def by simp
  show "\<exists>report s'. validatePackage cmd pkg options s = (Inr report, s') \<and>
            map vr_name (pr_validations report) =
              (if selected options Git then [''Git Status''] else []) @
              (if selected options Auth \<or> selected options Publish then [''Package Manager''] else []) @
              (if selected options Deps then [''Dependencies''] else []) @
              (if selected options Version then [''Version Format''] else []) @
              (if selected options Changelog then [''Changelog''] else [])"
    unfolding vp using names by simp
qed

lemma call_prefix: "prefix (snd s) (snd (snd (call ev f s)))"
  by (simp add: call_def split: prod.splits)

lemma call_trace: "call ev f s = (r, s') \<Longrightarrow> snd s' = snd s @ [ev]"
  by (auto simp: call_def split: prod.splits)

lemma logger_prefix: "prefix (snd s) (snd (logger l m e s))"
  by (simp add: logger_def)

lemma validateStatus_prefix: "prefix (snd s) (snd (snd (validateStatus svc options s)))"
proof -
  obtain r s1 where a: "status svc s = (r, s1)" by (cases "status svc s")
  have p1: "snd s1 = snd s @ [GitStatus]" by (rule status_trace[OF a])
  obtain r2 s2 where b: "fetch svc (remote (config svc)) s1 = (r2, s2)"
    by (cases "fetch svc (remote (config svc)) s1")
  have p2: "snd s2 = snd s @ [GitStatus, GitFetch (remote (config svc))]"
    using fetch_trace[OF b] p1 by simp
  show ?thesis
    by (simp add: validateStatus_def Let_def a b p1 p2 split: sum.splits option.splits)
qed

lemma validateGitStatus_prefix: "prefix (snd s) (snd (snd (validateGitStatus cmd options s)))"
proof -
  let ?o = "Some \<lparr> skipUpstreamTracking = Some (flag (vc_skipUpstreamTracking options)),
                     force = None, allowBranch = None \<rparr>"
  obtain r s1 where a: "validateStatus (gitService cmd) ?o s = (r, s1)"
    by (cases "validateStatus (gitService cmd) ?o s")
  have p: "prefix (snd s) (snd s1)"
    using validateStatus_prefix[of s "gitService cmd" ?o] a by simp
  show ?thesis
    using p by (auto simp: validateGitStatus_def a logger_def prefix_def split: sum.splits)
qed

lemma validateDependencies_prefix: "prefix (snd s) (snd (snd (validateDependencies cmd options s)))"
proof -
  obtain r s1 where a: "call IntegrityCheckWithDetails (integrity_checkWithDetails cmd) s = (r, s1)"
    by (cases "call IntegrityCheckWithDetails (integrity_checkWithDetails cmd) s")
  have p: "snd s1 = snd s @ [IntegrityCheckWithDetails]" by (rule call_trace[OF a])
  show ?thesis
    by (simp add: validateDependencies_def Let_def a p logger_def split: sum.splits)
qed

lemma validateVersioning_prefix: "prefix (snd s) (snd (snd (validateVersioning cmd pkg s)))"
proof -
  obtain r s1 where a: "call (VersionValidateVersion (currentVersion pkg))
             (version_validateVersion cmd (currentVersion pkg)) s = (r, s1)"
    by (cases "call (VersionValidateVersion (currentVersion pkg))
             (version_validateVersion cmd (currentVersion pkg)) s")
  show ?thesis
    by (simp add: validateVersioning_def a call_trace[OF a] logger_def split: sum.splits)
qed

lemma validateChangelog_prefix: "prefix (snd s) (snd (snd (validateChangelog cmd pkg s)))"
proof -
  obtain r s1 where a: "call (ChangelogValidate (name pkg)) (changelog_validate cmd pkg) s = (r, s1)"
    by (cases "call (ChangelogValidate (name pkg)) (changelog_validate cmd pkg) s")
  show ?thesis
    by (simp add: validateChangelog_def a call_trace[OF a] logger_def split: sum.splits)
qed

lemma pushIf_prefix:
  assumes "\<And>s. prefix (snd s) (snd (snd (f s)))"
  shows "prefix (snd (snd acc)) (snd (snd (pushIf cond nm f acc)))"
  using assms[of "snd acc"]
  by (auto simp: pushIf_def runValidation_def split: prod.splits sum.splits)

lemma pushIf_run:
  "pushIf True nm f acc = (fst acc @ [fst (runValidation nm f (snd acc))], snd (f (snd acc)))"
  by (auto simp: pushIf_def runValidation_def split: prod.splits sum.splits)

text \<open>The package manager validation starts with the authentication call.\<close>

lemma validatePackageManager_auth:
  assumes "npm_publish cfg"
  shows "prefix (snd s @ [PmValidateAuth]) (snd (snd (validatePackageManager cmd cfg pkg options s)))"
proof -
  obtain r s1 where a: "call PmValidateAuth (pm_validateAuth cmd) s = (r, s1)"
    by (cases "call PmValidateAuth (pm_validateAuth cmd) s")
  have p1: "snd s1 = snd s @ [PmValidateAuth]" by (rule call_trace[OF a])
  let ?s2 = "(fst s1, snd s1 @ [Log Success ''Package manager authentication: OK'' None])"
  obtain r3 s3 where b: "call (PmGetLatestVersion (name pkg)) (pm_getLatestVersion cmd (name pkg)) ?s2 = (r3, s3)"
    by (cases "call (PmGetLatestVersion (name pkg)) (pm_getLatestVersion cmd (name pkg)) ?s2")
  have p3: "snd s3 = snd s1 @ [Log Success ''Package manager authentication: OK'' None,
      PmGetLatestVersion (name pkg)]"
    using call_trace[OF b] by simp
  obtain r4 s4 where c: "call (PmPack (name pkg)) (pm_pack cmd pkg) s3 = (r4, s4)"
    by (cases "call (PmPack (name pkg)) (pm_pack cmd pkg) s3")
  have p4: "snd s4 = snd s3 @ [PmPack (name pkg)]" by (rule call_trace[OF c])
  have "prefix (snd s1) (snd (snd (validatePackageManager cmd cfg pkg options s)))"
    using assms
    by (simp add: validatePackageManager_def Let_def a b c p3 p4 logger_def
        split: sum.splits thrown.splits)
  then show ?thesis by (simp only: p1)
qed

text \<open>
  And when the authentication succeeds and \<open>skipPublishCheck\<close> is not set, the registry is
  asked for the latest version.
\<close>

lemma validatePackageManager_publish:
  assumes "npm_publish cfg" and "\<not> flag (vc_skipPublishCheck options)"
    and "fst (pm_validateAuth cmd (fst s)) = Inr ()"
  shows "prefix (snd s @ [PmValidateAuth, Log Success ''Package manager authentication: OK'' None,
                          PmGetLatestVersion (name pkg)])
           (snd (snd (validatePackageManager cmd cfg pkg options s)))"
proof -
  obtain s1 where a: "call PmValidateAuth (pm_validateAuth cmd) s = (Inr (), s1)"
    using assms(3) by (cases "pm_validateAuth cmd (fst s)") (simp add: call_def)
  have p1: "snd s1 = snd s @ [PmValidateAuth]" by (rule call_trace[OF a])
  let ?s2 = "(fst s1, snd s1 @ [Log Success ''Package manager authentication: OK'' None])"
  obtain r3 s3 where b: "call (PmGetLatestVersion (name pkg)) (pm_getLatestVersion cmd (name pkg)) ?s2 = (r3, s3)"
    by (cases "call (PmGetLatestVersion (name pkg)) (pm_getLatestVersion cmd (name pkg)) ?s2")
  have p3: "snd s3 = snd s1 @ [Log Success ''Package manager authentication: OK'' None,
      PmGetLatestVersion (name pkg)]"
    using call_trace[OF b] by simp
  obtain r4 s4 where c: "call (PmPack (name pkg)) (pm_pack cmd pkg) s3 = (r4, s4)"
    by (cases "call (PmPack (name pkg)) (pm_pack cmd pkg) s3")
  have p4: "snd s4 = snd s3 @ [PmPack (name pkg)]" by (rule call_trace[OF c])
  have "prefix (snd s3) (snd (snd (validatePackageManager cmd cfg pkg options s)))"
    using assms(1,2)
    by (simp add: validatePackageManager_def Let_def a b c p4 logger_def split: sum.splits)
  then show ?thesis by (simp add: p3 p1)
qed

lemma rest_prefix:
  "prefix (snd (snd a2))
     (snd (snd (pushIf c5 n5 (validateChangelog cmd pkg)
        (pushIf c4 n4 (validateVersioning cmd pkg)
          (pushIf c3 n3 (validateDependencies cmd options) a2)))))"
  by (rule prefix_order.trans[OF
        pushIf_prefix[where f = "validateDependencies cmd options", OF validateDependencies_prefix]
        prefix_order.trans[OF
          pushIf_prefix[where f = "validateVersioning cmd pkg", OF validateVersioning_prefix]
          pushIf_prefix[where f = "validateChangelog cmd pkg", OF validateChangelog_prefix]]])

lemma prefix_new:
  assumes "prefix tr tr1" and "prefix (tr1 @ evs) tr2" and "ev \<in> set evs"
  shows "ev \<in> set (drop (length tr) tr2)"
  using assms by (auto simp: prefix_def)

text \<open>
  Claim C9. The checks run do not follow the selection: authentication and publish
  readiness are one validation, run when \<open>auth\<close> or \<open>publish\<close> is selected. For a package
  that is published to npm and whose configuration is read: with \<open>--skip-auth\<close> (no \<open>only\<close>
  flag set, \<open>publish\<close> not skipped) the check \<open>auth\<close> is not selected and the run calls
  \<open>validateAuth\<close> all the same; with \<open>--auth-only\<close> (without \<open>--publish-only\<close>, the
  authentication succeeding and \<open>skipPublishCheck\<close> unset, as the command line leaves it)
  the check \<open>publish\<close> is not selected and the run asks the registry for the latest
  version all the same.
\<close>

theorem validatePackage_auth_publish_together:
  assumes "call (GetPackageConfig (name pkg)) (getPackageConfig cmd (name pkg)) s = (Inr cfg, s0)"
    and "npm_publish cfg"
  shows "(\<not> onlyMode options \<and> flag (vc_skipAuth options) \<and> \<not> flag (vc_skipPublish options) \<longrightarrow>
            \<not> shouldValidate options ''auth'' \<and>
            PmValidateAuth \<in> set (drop (length (snd s)) (snd (snd (validatePackage cmd pkg options s))))) \<and>
         (flag (vc_authOnly options) \<and> \<not> flag (vc_publishOnly options) \<and>
          \<not> flag (vc_skipPublishCheck options) \<and> (\<forall>g. fst (pm_validateAuth cmd g) = Inr ()) \<longrightarrow>
            \<not> shouldValidate options ''publish'' \<and>
            PmGetLatestVersion (name pkg) \<in>
              set (drop (length (snd s)) (snd (snd (validatePackage cmd pkg options s)))))"
proof -
  define a1 where "a1 = pushIf (shouldValidate options ''git'') ''Git Status''
                     (validateGitStatus cmd options) ([], s0)"
  define a2 where "a2 = pushIf True ''Package Manager''
                     (validatePackageManager cmd cfg pkg options) a1"
  have p0: "prefix (snd s) (snd s0)"
    using call_trace[OF assms(1)] by simp
  have "prefix (snd s0) (snd (snd a1))"
    using pushIf_prefix[where f = "validateGitStatus cmd options" and acc = "([], s0)",
        OF validateGitStatus_prefix]
    by (simp add: a1_def)
  then have p1: "prefix (snd s) (snd (snd a1))"
    by (rule prefix_order.trans[OF p0])
  have run: "shouldValidate options ''auth'' \<or> shouldValidate options ''publish'' \<Longrightarrow>
      prefix (snd (snd a2)) (snd (snd (validatePackage cmd pkg options s)))"
    unfolding validatePackage_def assms(1) a1_def a2_def
    by (simp add: Let_def rest_prefix)
  have s2: "snd a2 = snd (validatePackageManager cmd cfg pkg options (snd a1))"
    by (simp add: a2_def pushIf_run)
  show ?thesis
  proof (intro conjI impI)
    assume h: "\<not> onlyMode options \<and> flag (vc_skipAuth options) \<and> \<not> flag (vc_skipPublish options)"
    then show "\<not> shouldValidate options ''auth''"
      by (simp add: shouldValidate_def)
    from h have "shouldValidate options ''publish''"
      by (simp add: shouldValidate_def)
    then have r: "prefix (snd (snd a2)) (snd (snd (validatePackage cmd pkg options s)))"
      using run by simp
    have "prefix (snd (snd a1) @ [PmValidateAuth]) (snd (snd (validatePackage cmd pkg options s)))"
      using prefix_order.trans[OF validatePackageManager_auth[OF assms(2)] r[unfolded s2]] .
    from prefix_new[OF p1 this]
    show "PmValidateAuth \<in> set (drop (length (snd s)) (snd (snd (validatePackage cmd pkg options s))))"
      by simp
  next
    assume h: "flag (vc_authOnly options) \<and> \<not> flag (vc_publishOnly options) \<and>
          \<not> flag (vc_skipPublishCheck options) \<and> (\<forall>g. fst (pm_validateAuth cmd g) = Inr ())"
    then have om: "onlyMode options"
      by (cases "vc_authOnly options") (simp_all add: onlyMode_def)
    with h show "\<not> shouldValidate options ''publish''"
      by (simp add: shouldValidate_def)
    from h om have "shouldValidate options ''auth''"
      by (simp add: shouldValidate_def)
    then have r: "prefix (snd (snd a2)) (snd (snd (validatePackage cmd pkg options s)))"
      using run by simp
    have au: "fst (pm_validateAuth cmd (fst (snd a1))) = Inr ()" and sk: "\<not> flag (vc_skipPublishCheck options)"
      using h by simp_all
    have "prefix (snd (snd a1) @ [PmValidateAuth, Log Success ''Package manager authentication: OK'' None,
                          PmGetLatestVersion (name pkg)])
        (snd (snd (validatePackage cmd pkg options s)))"
      using prefix_order.trans[OF validatePackageManager_publish[OF assms(2) sk au] r[unfolded s2]] .
    from prefix_new[OF p1 this]
    show "PmGetLatestVersion (name pkg) \<in>
        set (drop (length (snd s)) (snd (snd (validatePackage cmd pkg options s))))"
      by simp
  qed
qed

theorem validatePackage_auth_publish_together_witness:
  "\<not> shouldValidate (noFlags\<lparr>vc_skipAuth := Some True\<rparr>) ''auth'' \<and>
   PmValidateAuth \<in> set (drop (length ([]::event list))
      (snd (snd (validatePackage demoCommand demoContext (noFlags\<lparr>vc_skipAuth := Some True\<rparr>)
                   (demoRepo, []))))) \<and>
   \<not> shouldValidate (noFlags\<lparr>vc_authOnly := Some True\<rparr>) ''publish'' \<and>
   PmGetLatestVersion ''a'' \<in> set (drop (length ([]::event list))
      (snd (snd (validatePackage demoCommand demoContext (noFlags\<lparr>vc_authOnly := Some True\<rparr>)
                   (demoRepo, []))))) \<and>
   snd (snd (validatePackage demoCommand demoContext (noFlags\<lparr>vc_authOnly := Some True\<rparr>)
               (demoRepo, []))) =
     [GetPackageConfig ''a'', PmValidateAuth,
      Log Success ''Package manager authentication: OK'' None,
      PmGetLatestVersion ''a'', Log Success ''Package publish readiness: OK'' None] \<and>
   snd (snd (validatePackage demoCommand demoContext
               (noFlags\<lparr>vc_skipAuth := Some True, vc_skipGit := Some True, vc_skipDeps := Some True,
                         vc_skipVersion := Some True, vc_skipChangelog := Some True\<rparr>)
               (demoRepo, []))) =
     [GetPackageConfig ''a'', PmValidateAuth,
      Log Success ''Package manager authentication: OK'' None,
      PmGetLatestVersion ''a'', Log Success ''Package publish readiness: OK'' None] \<and>
   snd (snd (validatePackage demoCommand demoContext
               (noFlags\<lparr>vc_skipAuth := Some True, vc_skipPublish := Some True, vc_skipGit := Some True,
                         vc_skipDeps := Some True, vc_skipVersion := Some True,
                         vc_skipChangelog := Some True\<rparr>)
               (demoRepo, []))) =
     [GetPackageConfig ''a'']"
proof -
  have g: "call (GetPackageConfig (name demoContext)) (getPackageConfig demoCommand (name demoContext))
             (demoRepo, []) =
           (Inr \<lparr> npm_publish = True, packageManager = ''npm'' \<rparr>,
            (demoRepo, [GetPackageConfig (name demoContext)]))"
    by (simp add: call_def demoCommand_def)
  have n: "npm_publish \<lparr> npm_publish = True, packageManager = ''npm'' \<rparr>" by simp
  have nm: "name demoContext = ''a''" by (simp add: demoContext_def)
  note w = validatePackage_auth_publish_together[OF g n]
  have h1: "\<not> onlyMode (noFlags\<lparr>vc_skipAuth := Some True\<rparr>) \<and>
      flag (vc_skipAuth (noFlags\<lparr>vc_skipAuth := Some True\<rparr>)) \<and>
      \<not> flag (vc_skipPublish (noFlags\<lparr>vc_skipAuth := Some True\<rparr>))"
    by (simp add: onlyMode_def noFlags_def)
  have h2: "flag (vc_authOnly (noFlags\<lparr>vc_authOnly := Some True\<rparr>)) \<and>
      \<not> flag (vc_publishOnly (noFlags\<lparr>vc_authOnly := Some True\<rparr>)) \<and>
      \<not> flag (vc_skipPublishCheck (noFlags\<lparr>vc_authOnly := Some True\<rparr>)) \<and>
      (\<forall>g. fst (pm_validateAuth demoCommand g) = Inr ())"
    by (simp add: noFlags_def demoCommand_def)
  note a = w[THEN conjunct1, rule_format, OF h1]
  note b = w[THEN conjunct2, rule_format, OF h2, unfolded nm]
  have c: "snd (snd (validatePackage demoCommand demoContext (noFlags\<lparr>vc_authOnly := Some True\<rparr>)
               (demoRepo, []))) =
     [GetPackageConfig ''a'', PmValidateAuth,
      Log Success ''Package manager authentication: OK'' None,
      PmGetLatestVersion ''a'', Log Success ''Package publish readiness: OK'' None]"
    by code_simp
  have d: "snd (snd (validatePackage demoCommand demoContext
               (noFlags\<lparr>vc_skipAuth := Some True, vc_skipGit := Some True, vc_skipDeps := Some True,
                         vc_skipVersion := Some True, vc_skipChangelog := Some True\<rparr>)
               (demoRepo, []))) =
     [GetPackageConfig ''a'', PmValidateAuth,
      Log Success ''Package manager authentication: OK'' None,
      PmGetLatestVersion ''a'', Log Success ''Package publish readiness: OK'' None]"
    by code_simp
  have e: "snd (snd (validatePackage demoCommand demoContext
               (noFlags\<lparr>vc_skipAuth := Some True, vc_skipPublish := Some True, vc_skipGit := Some True,
                         vc_skipDeps := Some True, vc_skipVersion := Some True,
                         vc_skipChangelog := Some True\<rparr>)
               (demoRepo, []))) =
     [GetPackageConfig ''a'']"
    by code_simp
  show ?thesis
    using a b by (intro conjI c d e) simp_all
qed

section \<open>Properties of the release command\<close>


























end
